theory Spec2Isabelle
  imports Complex_Main "HOL-Library.Word"
begin

section \<open>Python values used by the preprocessing scripts\<close>

text \<open>
  The scripts work on numpy arrays read by \<^verbatim>\<open>cv2.imread\<close>: an array of shape
  \<open>(H, W, C)\<close> with \<^verbatim>\<open>uint8\<close> entries. An array is modelled as the list of its rows, a row as
  the list of its pixels and a pixel as the list of its channel values. Python integers
  are unbounded and are modelled by \<open>int\<close>; \<^verbatim>\<open>//\<close> on them is floor division, which is
  \<open>div\<close> on \<open>int\<close>.
\<close>

type_synonym pixel = "8 word list"
type_synonym ndarray = "pixel list list"

datatype py_error =
  ZeroDivisionError | AttributeError | TypeError | IndexError | OverflowError | ValueError string
  | Cv2Error

text \<open>\<^verbatim>\<open>a.shape[0]\<close> and \<^verbatim>\<open>a.shape[1]\<close>.\<close>

definition shape0 :: "'a list list \<Rightarrow> int" where
  "shape0 a = int (length a)"

definition shape1 :: "'a list list \<Rightarrow> int" where
  "shape1 a = (case a of [] \<Rightarrow> 0 | r # _ \<Rightarrow> int (length r))"

text \<open>\<^verbatim>\<open>range(n)\<close>: the integers \<open>0, ..., n - 1\<close>, empty when \<open>n \<le> 0\<close>.\<close>

definition py_range :: "int \<Rightarrow> int list" where
  "py_range n = map int [0..<nat n]"

text \<open>
  A slice bound \<open>i\<close> on a sequence of length \<open>n\<close>: a negative bound counts from the end,
  and every bound is clamped to \<open>0..n\<close>. \<^verbatim>\<open>xs[b:e]\<close> is then the part between the two
  normalised bounds (empty when they cross).
\<close>

definition py_bound :: "int \<Rightarrow> nat \<Rightarrow> nat" where
  "py_bound i n = (if i < 0 then nat (max (i + int n) 0) else min (nat i) n)"

definition py_slice :: "int \<Rightarrow> int \<Rightarrow> 'a list \<Rightarrow> 'a list" where
  "py_slice b e xs =
     (let n = length xs; b' = py_bound b n; e' = py_bound e n
      in take (e' - b') (drop b' xs))"

text \<open>\<^verbatim>\<open>a[hb:he, wb:we, :]\<close> (and \<^verbatim>\<open>a[hb:he, wb:we]\<close>, which is the same array).\<close>

definition slice2d :: "int \<Rightarrow> int \<Rightarrow> int \<Rightarrow> int \<Rightarrow> ndarray \<Rightarrow> ndarray" where
  "slice2d hb he wb we a = map (py_slice wb we) (py_slice hb he a)"

text \<open>\<^verbatim>\<open>np.zeros_like(a)\<close> and \<^verbatim>\<open>a * 0\<close> (the product stays \<^verbatim>\<open>uint8\<close>).\<close>

definition zeros_like :: "ndarray \<Rightarrow> ndarray" where
  "zeros_like a = map (map (map (\<lambda>_. 0))) a"

definition times0 :: "ndarray \<Rightarrow> ndarray" where
  "times0 a = map (map (map (\<lambda>c. c * 0))) a"

text \<open>
  \<^verbatim>\<open>xs[b:e] = vs\<close> on one axis, and
  \<^verbatim>\<open>a[hb:he, wb:we, :] = v\<close> on the two leading axes. The scripts only ever assign a
  slice of an array the same slice of an array of the same shape, so the shapes of both
  sides agree and numpy's shape check passes.
\<close>

definition set_slice :: "int \<Rightarrow> int \<Rightarrow> 'a list \<Rightarrow> 'a list \<Rightarrow> 'a list" where
  "set_slice b e xs vs =
     (let n = length xs; b' = py_bound b n; e' = py_bound e n
      in take b' xs @ vs @ drop (max b' e') xs)"

definition set_slice2d :: "int \<Rightarrow> int \<Rightarrow> int \<Rightarrow> int \<Rightarrow> ndarray \<Rightarrow> ndarray \<Rightarrow> ndarray" where
  "set_slice2d hb he wb we a v =
     set_slice hb he a (map2 (\<lambda>row vrow. set_slice wb we row vrow) (py_slice hb he a) v)"

text \<open>\<^verbatim>\<open>'%s' % n\<close> and \<^verbatim>\<open>'%d' % n\<close> for an integer: its decimal digits, with a sign.\<close>

definition digit_char :: "nat \<Rightarrow> char" where
  "digit_char d = char_of (48 + d)"

fun str_nat :: "nat \<Rightarrow> string" where
  "str_nat n = (if n < 10 then [digit_char n] else str_nat (n div 10) @ [digit_char (n mod 10)])"

definition str_int :: "int \<Rightarrow> string" where
  "str_int i = (if i < 0 then CHR ''-'' # str_nat (nat (- i)) else str_nat (nat i))"

section \<open>The grid tiler\<close>

text \<open>
  The output of a run is the sequence of \<^verbatim>\<open>cv2.imwrite(path, array)\<close> calls it makes, in
  order. Every tile write is preceded by \<^verbatim>\<open>os.makedirs(dirname(path), exist_ok=True)\<close>,
  which makes the write possible and leaves no file of its own.
\<close>

type_synonym imwrite = "string \<times> ndarray"

text \<open>The file name of a tile: \<^verbatim>\<open>item + '_H%sW%s.png' % (h, w)\<close>.\<close>

definition tile_name :: "string \<Rightarrow> int \<Rightarrow> int \<Rightarrow> string" where
  "tile_name item h w = item @ ''_H'' @ str_int h @ ''W'' @ str_int w @ ''.png''"

text \<open>
  The body of the two inner loops of \<^verbatim>\<open>subset_patchify_MoNuSeg_data_by_cancer\<close>, for the
  source image \<open>item\<close> of the split \<open>split_dir\<close> (\<^verbatim>\<open>train\<close> or \<^verbatim>\<open>test\<close>: the function holds
  the loop twice, and the two copies differ in this word only). The image and the mask
  are called \<open>img\<close> and \<open>msk\<close> here.
\<close>

definition patchify_tile ::
  "string \<Rightarrow> string \<Rightarrow> string \<Rightarrow> string \<Rightarrow> int \<Rightarrow> ndarray \<Rightarrow> ndarray \<Rightarrow> int \<Rightarrow> int \<Rightarrow> imwrite list" where
  "patchify_tile target_folder cancer_type split_dir item imsize img msk h_chunk w_chunk =
     (let image_h = shape0 img; image_w = shape1 img;
          h = h_chunk * imsize;
          w = w_chunk * imsize;
          image_path_to = target_folder @ ''/'' @ cancer_type @ ''/'' @ split_dir @ ''/images/''
             @ tile_name item h w;
          mask_path_to = target_folder @ ''/'' @ cancer_type @ ''/'' @ split_dir @ ''/masks/''
             @ tile_name item h w;
          h_begin = max h 0;
          w_begin = max w 0;
          h_end = min (h + imsize) image_h;
          w_end = min (w + imsize) image_w;
          image_patch = slice2d h_begin h_end w_begin w_end img;
          mask_patch = slice2d h_begin h_end w_begin w_end msk
      in [(image_path_to, image_patch), (mask_path_to, mask_patch)])"

text \<open>
  The two nested \<^verbatim>\<open>for\<close> loops over one source image. \<^verbatim>\<open>image_h // imsize\<close> raises
  \<^verbatim>\<open>ZeroDivisionError\<close> when \<open>imsize = 0\<close>, before anything is written.
\<close>

definition patchify_image ::
  "string \<Rightarrow> string \<Rightarrow> string \<Rightarrow> string \<Rightarrow> int \<Rightarrow> ndarray \<Rightarrow> ndarray \<Rightarrow> py_error + imwrite list" where
  "patchify_image target_folder cancer_type split_dir item imsize img msk =
     (let image_h = shape0 img; image_w = shape1 img
      in if imsize = 0 then Inl ZeroDivisionError
         else Inr (concat (map (\<lambda>h_chunk.
                     concat (map (\<lambda>w_chunk.
                        patchify_tile target_folder cancer_type split_dir item imsize img msk h_chunk w_chunk)
                       (py_range (image_w div imsize))))
                   (py_range (image_h div imsize)))))"

text \<open>
  What the specification says a tile is: the \<open>s \<times> s\<close> block of the array whose top-left
  pixel is at row \<open>h\<close> and column \<open>w\<close>.
\<close>

definition spec_tile :: "ndarray \<Rightarrow> nat \<Rightarrow> nat \<Rightarrow> nat \<Rightarrow> ndarray" where
  "spec_tile a s h w = map (\<lambda>i. map (\<lambda>j. a ! (h + i) ! (w + j)) [0..<s]) [0..<s]"

text \<open>An array of \<open>H\<close> rows of \<open>W\<close> pixels each.\<close>

definition has_shape :: "'a list list \<Rightarrow> nat \<Rightarrow> nat \<Rightarrow> bool" where
  "has_shape a H W \<longleftrightarrow> length a = H \<and> (\<forall>r \<in> set a. length r = W)"

section \<open>The intra-image partitioner\<close>

text \<open>
  \<^verbatim>\<open>int(np.ceil(a / b))\<close> for Python integers \<open>a\<close> and \<open>b > 0\<close>. Python's \<^verbatim>\<open>/\<close> returns the
  double nearest to the exact quotient. In \<^verbatim>\<open>percentage * total_count / 100\<close> the numerator
  is at most 50 times the number of pixels of an image held in memory, far below
  \<open>2 ^ 53 / 100\<close>; up to there a quotient that is not an integer differs from every
  integer by at least \<open>1 / 100\<close>, more than the rounding error, so the ceiling of the
  double is the ceiling of the exact quotient, which is what the model computes.
\<close>

definition py_ceil_div :: "int \<Rightarrow> int \<Rightarrow> int" where
  "py_ceil_div a b = - ((- a) div b)"

text \<open>
  The loop variables of the three outer loops of
  \<^verbatim>\<open>subset_patchify_MoNuSeg_data_by_cancer_intraimage\<close>: \<^verbatim>\<open>cancer_type\<close>, \<^verbatim>\<open>percentage\<close> and
  \<^verbatim>\<open>test_item_count, test_item\<close>.
\<close>

record job =
  cancer_type :: string
  percentage :: int
  test_item_count :: int
  test_item :: string

text \<open>
  \<^verbatim>\<open>target_folder = '../../external_data/MoNuSeg/MoNuSegByCancer_intraimage%dpct_%sx%s/'
       % (percentage, imsize, imsize)\<close>
\<close>

definition intraimage_target_folder :: "int \<Rightarrow> int \<Rightarrow> string" where
  "intraimage_target_folder pct imsize =
     ''../../external_data/MoNuSeg/MoNuSegByCancer_intraimage'' @ str_int pct @ ''pct_''
       @ str_int imsize @ ''x'' @ str_int imsize @ ''/''"

text \<open>
  \<^verbatim>\<open>target_folder + '/' + cancer_type + '/img%d_train' % test_item_count\<close> and its
  \<^verbatim>\<open>_test\<close> sibling: the roots of the evidence tree and of the held-out tree of one source
  image.
\<close>

definition train_tree :: "int \<Rightarrow> job \<Rightarrow> string" where
  "train_tree imsize j =
     intraimage_target_folder (percentage j) imsize @ ''/'' @ cancer_type j
       @ ''/img'' @ str_int (test_item_count j) @ ''_train''"

definition test_tree :: "int \<Rightarrow> job \<Rightarrow> string" where
  "test_tree imsize j =
     intraimage_target_folder (percentage j) imsize @ ''/'' @ cancer_type j
       @ ''/img'' @ str_int (test_item_count j) @ ''_test''"

text \<open>
  The state of the tile loop: the counter, the two "effective" canvases and the
  \<^verbatim>\<open>cv2.imwrite\<close> calls made so far.
\<close>

record pstate =
  curr_count :: int
  image_effective :: ndarray
  mask_effective :: ndarray
  written :: "imwrite list"

text \<open>The body of the inner loop, lines 363 to 415.\<close>

definition intraimage_tile ::
  "int \<Rightarrow> job \<Rightarrow> ndarray \<Rightarrow> ndarray \<Rightarrow> int \<Rightarrow> pstate \<Rightarrow> int \<Rightarrow> int \<Rightarrow> pstate" where
  "intraimage_tile imsize j img msk target_count st h_chunk w_chunk =
     (let image_h = shape0 img; image_w = shape1 img;
          h = h_chunk * imsize;
          w = w_chunk * imsize;
          h_begin = max h 0;
          w_begin = max w 0;
          h_end = min (h + imsize) image_h;
          w_end = min (w + imsize) image_w;
          image_patch = slice2d h_begin h_end w_begin w_end img;
          mask_patch = slice2d h_begin h_end w_begin w_end msk
      in if curr_count st < target_count then
           st\<lparr>written := written st @
                 [(train_tree imsize j @ ''/images/'' @ tile_name (test_item j) h w, image_patch),
                  (train_tree imsize j @ ''/masks/'' @ tile_name (test_item j) h w, mask_patch),
                  (test_tree imsize j @ ''/images/'' @ tile_name (test_item j) h w, times0 image_patch),
                  (test_tree imsize j @ ''/masks/'' @ tile_name (test_item j) h w, times0 mask_patch)],
              curr_count := curr_count st + 1\<rparr>
         else
           st\<lparr>written := written st @
                 [(test_tree imsize j @ ''/images/'' @ tile_name (test_item j) h w, image_patch),
                  (test_tree imsize j @ ''/masks/'' @ tile_name (test_item j) h w, mask_patch)],
              image_effective := set_slice2d h_begin h_end w_begin w_end (image_effective st)
                 (slice2d h_begin h_end w_begin w_end img),
              mask_effective := set_slice2d h_begin h_end w_begin w_end (mask_effective st)
                 (slice2d h_begin h_end w_begin w_end msk),
              curr_count := curr_count st + 1\<rparr>)"

text \<open>
  The work on one source image, lines 351 to 423: the counts, the zero canvases, the two
  nested loops and the two writes of the effective canvases. The result is the final
  state, whose \<open>written\<close> ends with the two canvases.
\<close>

definition intraimage_image :: "int \<Rightarrow> job \<Rightarrow> ndarray \<Rightarrow> ndarray \<Rightarrow> py_error + pstate" where
  "intraimage_image imsize j img msk =
     (let image_h = shape0 img; image_w = shape1 img
      in if imsize = 0 then Inl ZeroDivisionError
         else
          (let total_count = (image_h div imsize) * (image_w div imsize);
               target_count = py_ceil_div (percentage j * total_count) 100;
               st0 = \<lparr>curr_count = 0, image_effective = zeros_like img,
                      mask_effective = zeros_like msk, written = []\<rparr>;
               st = foldl (\<lambda>st h_chunk.
                       foldl (\<lambda>st w_chunk. intraimage_tile imsize j img msk target_count st h_chunk w_chunk)
                         st (py_range (image_w div imsize)))
                     st0 (py_range (image_h div imsize))
           in Inr (st\<lparr>written := written st @
                 [(test_tree imsize j @ ''/'' @ test_item j @ ''_effective_image.png'', image_effective st),
                  (test_tree imsize j @ ''/'' @ test_item j @ ''_effective_mask.png'', mask_effective st)]\<rparr>)))"

text \<open>
  The specification's row-major enumeration of a grid with \<open>nw\<close> columns of tiles of edge
  \<open>s\<close>: tile number \<open>k\<close> has its top-left pixel at row \<open>tile_row s nw k\<close> and column
  \<open>tile_col s nw k\<close>, and covers the pixels \<open>(i, j)\<close> with \<open>in_tile s nw k i j\<close>.
\<close>

definition tile_row :: "nat \<Rightarrow> nat \<Rightarrow> nat \<Rightarrow> nat" where
  "tile_row s nw k = (k div nw) * s"

definition tile_col :: "nat \<Rightarrow> nat \<Rightarrow> nat \<Rightarrow> nat" where
  "tile_col s nw k = (k mod nw) * s"

definition in_tile :: "nat \<Rightarrow> nat \<Rightarrow> nat \<Rightarrow> nat \<Rightarrow> nat \<Rightarrow> bool" where
  "in_tile s nw k i j \<longleftrightarrow>
     tile_row s nw k \<le> i \<and> i < tile_row s nw k + s \<and> tile_col s nw k \<le> j \<and> j < tile_col s nw k + s"

text \<open>
  What the specification says the partitioner does with a tile whose top-left pixel is at
  \<open>(h, w)\<close>: an evidence tile goes with its real content to the evidence tree and as zeros
  of the same shape to the held-out tree, under the same relative path; a held-out tile
  goes with its real content to the held-out tree.
\<close>

definition spec_tile_writes ::
  "int \<Rightarrow> job \<Rightarrow> ndarray \<Rightarrow> ndarray \<Rightarrow> nat \<Rightarrow> bool \<Rightarrow> nat \<Rightarrow> nat \<Rightarrow> imwrite list" where
  "spec_tile_writes imsize j img msk s evidence h w =
     (if evidence then
        [(train_tree imsize j @ ''/images/'' @ tile_name (test_item j) (int h) (int w), spec_tile img s h w),
         (train_tree imsize j @ ''/masks/'' @ tile_name (test_item j) (int h) (int w), spec_tile msk s h w),
         (test_tree imsize j @ ''/images/'' @ tile_name (test_item j) (int h) (int w), zeros_like (spec_tile img s h w)),
         (test_tree imsize j @ ''/masks/'' @ tile_name (test_item j) (int h) (int w), zeros_like (spec_tile msk s h w))]
      else
        [(test_tree imsize j @ ''/images/'' @ tile_name (test_item j) (int h) (int w), spec_tile img s h w),
         (test_tree imsize j @ ''/masks/'' @ tile_name (test_item j) (int h) (int w), spec_tile msk s h w)])"

text \<open>
  What the specification says the effective canvas is: the source pixel wherever a
  held-out tile (one of the tiles \<open>ntarget, ..., ntiles - 1\<close>) covers the pixel, and a zero
  pixel everywhere else.
\<close>

definition spec_effective :: "ndarray \<Rightarrow> nat \<Rightarrow> nat \<Rightarrow> nat \<Rightarrow> nat \<Rightarrow> ndarray" where
  "spec_effective a s nw ntiles ntarget =
     map (\<lambda>i. map (\<lambda>j. if \<exists>k \<in> {ntarget..<ntiles}. in_tile s nw k i j then a ! i ! j
                         else map (\<lambda>_. 0) (a ! i ! j))
                [0..<length (a ! i)])
         [0..<length a]"

text \<open>
  What the specification says the counts are: \<open>total = floor(H/s) * floor(W/s)\<close> tiles, of
  which \<open>target = ceil(p * total / 100)\<close> are evidence.
\<close>

definition spec_total :: "nat \<Rightarrow> nat \<Rightarrow> nat \<Rightarrow> nat" where
  "spec_total H W s = (H div s) * (W div s)"

definition spec_target :: "int \<Rightarrow> nat \<Rightarrow> nat" where
  "spec_target p T = nat \<lceil>real_of_int (p * int T) / 100\<rceil>"

section \<open>Whole runs on a file store\<close>

text \<open>
  The files the scripts read: for a path, what \<^verbatim>\<open>cv2.imread\<close> returns, the array of the file
  or \<^verbatim>\<open>None\<close>. The arrays \<^verbatim>\<open>cv2.imread\<close> returns have at least one row, one column and three
  channels.
\<close>

type_synonym files = "string \<Rightarrow> ndarray option"

text \<open>\<^verbatim>\<open>a.size\<close>, the number of entries of an array.\<close>

definition array_size :: "ndarray \<Rightarrow> nat" where
  "array_size a = sum_list (map (\<lambda>row. sum_list (map length row)) a)"

text \<open>
  \<^verbatim>\<open>cv2.imwrite\<close> raises \<^verbatim>\<open>cv2.error\<close> when its array has no entry, as the slice of a mask
  smaller than its image can be. Of a sequence of calls in program order, the calls
  before the first one on an empty array complete, that one raises, and the calls after
  it are never made: \<open>imwrite_calls\<close> gives the calls that complete and the error, if any.
\<close>

fun imwrite_calls :: "imwrite list \<Rightarrow> imwrite list \<times> py_error option" where
  "imwrite_calls [] = ([], None)"
| "imwrite_calls ((path, a) # ws) =
     (if array_size a = 0 then ([], Some Cv2Error)
      else (case imwrite_calls ws of (cs, e) \<Rightarrow> ((path, a) # cs, e)))"

text \<open>
  A call of \<^verbatim>\<open>cv2.imwrite\<close> that completes replaces the file of its path (the PNG format it
  writes by the file names is lossless), or it returns \<^verbatim>\<open>False\<close> and leaves the files as
  they are: so it does when the folder of the path does not exist. The tile writes follow
  the \<^verbatim>\<open>os.makedirs\<close> of their folders; the two canvas writes do not, and the folder of the
  canvases exists only if it did before the run or a tile write of the same image has
  made it. Which calls leave a file is therefore up to the file system, and the model
  takes it from a parameter: the call number \<open>n\<close> of a run, counting the completed calls
  from 0, leaves its file if and only if \<open>ok n\<close>. \<open>left_by\<close> gives the calls of a sequence
  that leave a file, \<open>imwrite_each\<close> the files after the sequence.
\<close>

fun left_by :: "(nat \<Rightarrow> bool) \<Rightarrow> nat \<Rightarrow> imwrite list \<Rightarrow> imwrite list" where
  "left_by ok n [] = []"
| "left_by ok n (w # ws) = (if ok n then w # left_by ok (Suc n) ws else left_by ok (Suc n) ws)"

fun imwrite_each :: "(nat \<Rightarrow> bool) \<Rightarrow> nat \<Rightarrow> files \<Rightarrow> imwrite list \<Rightarrow> files" where
  "imwrite_each ok n fs [] = fs"
| "imwrite_each ok n fs ((path, a) # ws) =
     imwrite_each ok (Suc n) (if ok n then fs(path \<mapsto> a) else fs) ws"

text \<open>The folders of the inputs and the hard-coded lists of the source images.\<close>

definition train_image_folder :: string where
  "train_image_folder = ''../../external_data/MoNuSeg/MoNuSegTrainData/images/''"

definition train_mask_folder :: string where
  "train_mask_folder = ''../../external_data/MoNuSeg/MoNuSegTrainData/masks/''"

definition test_image_folder :: string where
  "test_image_folder = ''../../external_data/MoNuSeg/MoNuSegTestData/images/''"

definition test_mask_folder :: string where
  "test_mask_folder = ''../../external_data/MoNuSeg/MoNuSegTestData/masks/''"

definition train_list :: "string \<Rightarrow> string list" where
  "train_list ct =
     (if ct = ''breast'' then
        [''TCGA-A7-A13E-01Z-00-DX1'', ''TCGA-A7-A13F-01Z-00-DX1'', ''TCGA-AR-A1AK-01Z-00-DX1'',
         ''TCGA-AR-A1AS-01Z-00-DX1'', ''TCGA-E2-A1B5-01Z-00-DX1'', ''TCGA-E2-A14V-01Z-00-DX1'']
      else if ct = ''colon'' then
        [''TCGA-AY-A8YK-01A-01-TS1'', ''TCGA-NH-A8F7-01A-01-TS1'']
      else if ct = ''prostate'' then
        [''TCGA-G9-6336-01Z-00-DX1'', ''TCGA-G9-6348-01Z-00-DX1'', ''TCGA-G9-6356-01Z-00-DX1'',
         ''TCGA-G9-6363-01Z-00-DX1'', ''TCGA-CH-5767-01Z-00-DX1'', ''TCGA-G9-6362-01Z-00-DX1'']
      else [])"

definition test_list :: "string \<Rightarrow> string list" where
  "test_list ct =
     (if ct = ''breast'' then [''TCGA-AC-A2FO-01A-01-TS1'', ''TCGA-AO-A0J2-01A-01-BSA'']
      else if ct = ''colon'' then [''TCGA-A6-6782-01A-01-BS1'']
      else if ct = ''prostate'' then [''TCGA-EJ-A46H-01A-03-TSC'', ''TCGA-HC-7209-01A-01-TS1'']
      else [])"

text \<open>
  The iterations of the three outer loops of the partitioner, in order: for each cancer
  type, for each percentage, for each test image with its index.
\<close>

definition intraimage_jobs :: "job list" where
  "intraimage_jobs =
     concat (map (\<lambda>ct.
       concat (map (\<lambda>pct.
         map (\<lambda>(k, item). \<lparr>cancer_type = ct, percentage = pct, test_item_count = int k, test_item = item\<rparr>)
           (enumerate 0 (test_list ct)))
         [5, 20, 50]))
       [''breast'', ''colon'', ''prostate''])"

text \<open>
  The loops over the iterations, on the files \<open>fs\<close>. \<open>body\<close> is one iteration: from the files
  it gives the \<^verbatim>\<open>cv2.imwrite\<close> calls that complete and the error it raises, if any. \<open>out\<close>
  collects the completed calls of the run. The result of a run is the files it leaves, the
  calls it has completed, and the error that has ended it or \<open>None\<close> when the function
  returns.
\<close>

fun run_jobs ::
  "('j \<Rightarrow> files \<Rightarrow> imwrite list \<times> py_error option) \<Rightarrow> (nat \<Rightarrow> bool) \<Rightarrow> 'j list \<Rightarrow> files
     \<Rightarrow> imwrite list \<Rightarrow> files \<times> imwrite list \<times> py_error option" where
  "run_jobs body ok [] fs out = (fs, out, None)"
| "run_jobs body ok (j # js) fs out =
     (case body j fs of
        (cs, Some e) \<Rightarrow> (imwrite_each ok (length out) fs cs, out @ cs, Some e)
      | (cs, None) \<Rightarrow> run_jobs body ok js (imwrite_each ok (length out) fs cs) (out @ cs))"

text \<open>
  One iteration of the partitioner, lines 346 to 423. A missing image makes
  \<^verbatim>\<open>image.shape\<close> raise \<^verbatim>\<open>AttributeError\<close>. With a missing mask, \<^verbatim>\<open>mask\<close> is \<^verbatim>\<open>None\<close>: the counts
  are computed first (\<^verbatim>\<open>ZeroDivisionError\<close> when \<open>imsize = 0\<close>), and the first tile raises
  \<^verbatim>\<open>TypeError\<close> at the slice of the mask, before its writes; when the grid has no tile, the
  function goes on to write the image canvas, which is \<^verbatim>\<open>np.zeros_like(image)\<close>, and then
  \<^verbatim>\<open>cv2.imwrite\<close> raises \<^verbatim>\<open>cv2.error\<close> on the mask canvas, which is no image. Nothing but
  \<^verbatim>\<open>cv2.imwrite\<close> raises once the image and the mask are arrays and \<open>imsize\<close> is not 0.
\<close>

definition intraimage_job :: "int \<Rightarrow> job \<Rightarrow> files \<Rightarrow> imwrite list \<times> py_error option" where
  "intraimage_job imsize j fs =
     (case fs (test_image_folder @ test_item j @ ''.png'') of
        None \<Rightarrow> ([], Some AttributeError)
      | Some img \<Rightarrow>
         (case fs (test_mask_folder @ test_item j @ ''.png'') of
            None \<Rightarrow>
              if imsize = 0 then ([], Some ZeroDivisionError)
              else if py_range (shape0 img div imsize) = [] \<or> py_range (shape1 img div imsize) = []
              then (fst (imwrite_calls
                      [(test_tree imsize j @ ''/'' @ test_item j @ ''_effective_image.png'', zeros_like img)]),
                    Some Cv2Error)
              else ([], Some TypeError)
          | Some msk \<Rightarrow>
             (case intraimage_image imsize j img msk of
                Inl e \<Rightarrow> ([], Some e)
              | Inr st \<Rightarrow> imwrite_calls (written st))))"

definition subset_patchify_MoNuSeg_data_by_cancer_intraimage ::
  "(nat \<Rightarrow> bool) \<Rightarrow> int \<Rightarrow> files \<Rightarrow> files \<times> imwrite list \<times> py_error option" where
  "subset_patchify_MoNuSeg_data_by_cancer_intraimage ok imsize fs =
     run_jobs (intraimage_job imsize) ok intraimage_jobs fs []"

text \<open>
  The tiler's iterations: for each cancer type its training images, then its test images.
  An iteration is the cancer type, the split and the name of the image.
\<close>

definition patchify_jobs :: "(string \<times> string \<times> string) list" where
  "patchify_jobs =
     concat (map (\<lambda>ct. map (\<lambda>item. (ct, ''train'', item)) (train_list ct)
                        @ map (\<lambda>item. (ct, ''test'', item)) (test_list ct))
       [''breast'', ''colon'', ''prostate''])"

text \<open>
  \<^verbatim>\<open>target_folder = '../../external_data/MoNuSeg/MoNuSegByCancer_%sx%s/' % (imsize, imsize)\<close>
\<close>

definition patchify_target_folder :: "int \<Rightarrow> string" where
  "patchify_target_folder imsize =
     ''../../external_data/MoNuSeg/MoNuSegByCancer_'' @ str_int imsize @ ''x'' @ str_int imsize @ ''/''"

text \<open>
  One iteration of the tiler, lines 265 to 290 and 293 to 319. A missing mask makes the
  first slice of the mask raise \<^verbatim>\<open>TypeError\<close>, before the writes of the tile, when the
  image has a tile at all; otherwise nothing uses the mask.
\<close>

definition patchify_job :: "int \<Rightarrow> string \<times> string \<times> string \<Rightarrow> files \<Rightarrow> imwrite list \<times> py_error option" where
  "patchify_job imsize x fs =
     (case x of (ct, split_dir, item) \<Rightarrow>
        (let image_folder = (if split_dir = ''train'' then train_image_folder else test_image_folder);
             mask_folder = (if split_dir = ''train'' then train_mask_folder else test_mask_folder)
         in case fs (image_folder @ item @ ''.png'') of
              None \<Rightarrow> ([], Some AttributeError)
            | Some img \<Rightarrow>
               (case fs (mask_folder @ item @ ''.png'') of
                  None \<Rightarrow>
                    if imsize = 0 then ([], Some ZeroDivisionError)
                    else if py_range (shape0 img div imsize) = [] \<or> py_range (shape1 img div imsize) = []
                      then ([], None)
                    else ([], Some TypeError)
                | Some msk \<Rightarrow>
                   (case patchify_image (patchify_target_folder imsize) ct split_dir item imsize img msk of
                      Inl e \<Rightarrow> ([], Some e)
                    | Inr ws \<Rightarrow> imwrite_calls ws))))"

definition subset_patchify_MoNuSeg_data_by_cancer ::
  "(nat \<Rightarrow> bool) \<Rightarrow> int \<Rightarrow> files \<Rightarrow> files \<times> imwrite list \<times> py_error option" where
  "subset_patchify_MoNuSeg_data_by_cancer ok imsize fs =
     run_jobs (patchify_job imsize) ok patchify_jobs fs []"

text \<open>
  The paths the two functions read lie under \<^verbatim>\<open>MoNuSegTrainData\<close> and \<^verbatim>\<open>MoNuSegTestData\<close>, the
  paths they write under a folder \<^verbatim>\<open>MoNuSegByCancer...\<close>.
\<close>

definition input_path :: "string \<Rightarrow> bool" where
  "input_path p \<longleftrightarrow> take 36 p = ''../../external_data/MoNuSeg/MoNuSegT''"





section \<open>The annotation parser\<close>

text \<open>
  An annotation document as \<^verbatim>\<open>load_MoNuSeg_annotation\<close> sees it through the XML reader:
  the \<^verbatim>\<open>Region\<close> elements in document order, each with its \<^verbatim>\<open>Area\<close> attribute as
  \<^verbatim>\<open>float(...)\<close> reads it, its \<^verbatim>\<open>Id\<close> attribute as \<^verbatim>\<open>int(...)\<close> reads it, and its
  \<^verbatim>\<open>Vertex\<close> elements with their \<^verbatim>\<open>X\<close> and \<^verbatim>\<open>Y\<close> attributes. A finite double is modelled by
  the real number it denotes; the parser only compares and copies these values, which is
  exact on doubles. What the XML reader and the two conversions raise on a malformed
  document is theirs and is not modelled.
\<close>

record vertex =
  attr_X :: real
  attr_Y :: real

record region =
  attr_Area :: real
  attr_Id :: int
  vertices :: "vertex list"

text \<open>The three variables of the loop, lines 30 to 32.\<close>

record load_state =
  verts_list :: "(real \<times> real) list list"
  region_id_list :: "int list"
  cnt_invalid :: int

text \<open>The loop over the regions, lines 34 to 55. A vertex is stored as \<^verbatim>\<open>[y, x]\<close>.\<close>

fun load_regions :: "region list \<Rightarrow> load_state \<Rightarrow> load_state" where
  "load_regions [] st = st"
| "load_regions (region # regions) st =
     (if attr_Area region < 1.0 then
        load_regions regions (st\<lparr>cnt_invalid := cnt_invalid st + 1\<rparr>)
      else if length (vertices region) < 3 then
        load_regions regions (st\<lparr>cnt_invalid := cnt_invalid st + 1\<rparr>)
      else
        load_regions regions
          (st\<lparr>region_id_list := region_id_list st @ [attr_Id region],
             verts_list := verts_list st @ [map (\<lambda>vertex. (attr_Y vertex, attr_X vertex)) (vertices region)]\<rparr>))"

definition load_MoNuSeg_annotation :: "region list \<Rightarrow> (real \<times> real) list list \<times> int list" where
  "load_MoNuSeg_annotation regions =
     (let st = load_regions regions \<lparr>verts_list = [], region_id_list = [], cnt_invalid = 0\<rparr>
      in (verts_list st, region_id_list st))"

text \<open>
  The specification's notions for a region of three vertices: the area its vertices
  enclose, which is zero exactly when the three are collinear.
\<close>

definition enclosed_area3 :: "vertex list \<Rightarrow> real" where
  "enclosed_area3 vs =
     \<bar>attr_X (vs ! 0) * (attr_Y (vs ! 1) - attr_Y (vs ! 2))
      + attr_X (vs ! 1) * (attr_Y (vs ! 2) - attr_Y (vs ! 0))
      + attr_X (vs ! 2) * (attr_Y (vs ! 0) - attr_Y (vs ! 1))\<bar> / 2"

definition collinear3 :: "vertex list \<Rightarrow> bool" where
  "collinear3 vs \<longleftrightarrow> length vs = 3 \<and> enclosed_area3 vs = 0"

section \<open>The evaluation of detected nuclei\<close>

text \<open>
  A numpy \<^verbatim>\<open>float64\<close>: a finite double, modelled by the real number it denotes, or one of
  the three special values.
\<close>

datatype np_float = Finite real | NaN | PosInf | NegInf

text \<open>\<^verbatim>\<open>int(x)\<close> on a finite double truncates towards zero.\<close>

definition py_int :: "real \<Rightarrow> int" where
  "py_int x = (if 0 \<le> x then \<lfloor>x\<rfloor> else \<lceil>x\<rceil>)"

text \<open>
  \<^verbatim>\<open>a[i, j] = v\<close> on a two-dimensional array with Python integers \<open>i\<close> and \<open>j\<close>: a negative
  index counts from the end, and an index outside the array raises \<^verbatim>\<open>IndexError\<close>.
\<close>

definition np_setitem2 :: "'a list list \<Rightarrow> int \<Rightarrow> int \<Rightarrow> 'a \<Rightarrow> py_error + 'a list list" where
  "np_setitem2 a i j v =
     (let n0 = shape0 a; n1 = shape1 a;
          i' = (if i < 0 then i + n0 else i);
          j' = (if j < 0 then j + n1 else j)
      in if 0 \<le> i' \<and> i' < n0 \<and> 0 \<le> j' \<and> j' < n1
         then Inr (a[nat i' := (a ! nat i')[nat j' := v]])
         else Inl IndexError)"

text \<open>
  The loop of \<^verbatim>\<open>detection_eval\<close>, lines 66 to 69, over the detected points \<^verbatim>\<open>[h, w]\<close>,
  whose coordinates are the finite doubles of the detector's key points. The \<open>mask\<close> of
  the source is called \<open>msk\<close>.
\<close>

fun mark_nuclei :: "(real \<times> real) list \<Rightarrow> real list list \<Rightarrow> real list list \<Rightarrow> py_error + real list list" where
  "mark_nuclei [] msk nuclei_mask = Inr nuclei_mask"
| "mark_nuclei (n # nuclei_list) msk nuclei_mask =
     (if fst n < 0 \<or> fst n \<ge> real_of_int (shape0 msk) \<or> snd n < 0 \<or> snd n \<ge> real_of_int (shape1 msk)
      then mark_nuclei nuclei_list msk nuclei_mask
      else (case np_setitem2 nuclei_mask (py_int (fst n)) (py_int (snd n)) 1 of
              Inl e \<Rightarrow> Inl e
            | Inr nuclei_mask' \<Rightarrow> mark_nuclei nuclei_list msk nuclei_mask'))"

text \<open>
  \<^verbatim>\<open>x / y\<close> on \<^verbatim>\<open>float64\<close> values: numpy warns and returns \<^verbatim>\<open>nan\<close> or an infinity when \<open>y\<close> is
  zero. \<open>Finite q\<close> stands for the double nearest to \<open>q\<close>.
\<close>

definition np_divide :: "real \<Rightarrow> real \<Rightarrow> np_float" where
  "np_divide x y =
     (if y = 0 then (if x = 0 then NaN else if 0 < x then PosInf else NegInf) else Finite (x / y))"

text \<open>
  \<^verbatim>\<open>detection_eval\<close>. The mask is a two-dimensional \<^verbatim>\<open>uint8\<close> array; \<^verbatim>\<open>(mask > 0) * 1.0\<close> and
  \<^verbatim>\<open>np.zeros_like\<close> of it are arrays of doubles. The sums and differences below are of
  integers far below \<open>2 ^ 53\<close>, which doubles hold exactly.
\<close>

definition detection_eval ::
  "(real \<times> real) list \<Rightarrow> 8 word list list \<Rightarrow> int \<Rightarrow> py_error + np_float \<times> real \<times> real" where
  "detection_eval nuclei_list msk total_pos =
     (let msk' = map (map (\<lambda>v. (if v > 0 then 1 else 0) * 1.0)) msk;
          nuclei_mask = map (map (\<lambda>_. 0)) msk'
      in case mark_nuclei nuclei_list msk' nuclei_mask of
           Inl e \<Rightarrow> Inl e
         | Inr nuclei_mask' \<Rightarrow>
            (let TP = sum_list (map sum_list (map2 (map2 (*)) nuclei_mask' msk'));
                 FN = real_of_int total_pos - TP;
                 recall = np_divide TP (TP + FN)
             in Inr (recall, TP, FN)))"

text \<open>
  What the claim calls a point inside the bounds of a mask of \<open>H\<close> rows and \<open>W\<close> columns.
\<close>

definition in_bounds :: "nat \<Rightarrow> nat \<Rightarrow> real \<times> real \<Rightarrow> bool" where
  "in_bounds H W n \<longleftrightarrow> 0 \<le> fst n \<and> fst n < real H \<and> 0 \<le> snd n \<and> snd n < real W"

section \<open>The rasterizer\<close>

text \<open>
  \<^verbatim>\<open>annotation_to_label\<close> calls two functions of the \<^verbatim>\<open>skimage\<close> library, which are
  parameters of the model: \<^verbatim>\<open>polygon2mask(shape, cell)\<close>, the boolean raster of a polygon
  on a canvas of the given shape, and \<^verbatim>\<open>skimage.measure.centroid(cell_mask)\<close>, a pair of
  doubles. A polygon is the list of its vertices \<^verbatim>\<open>[y, x]\<close>.
\<close>

type_synonym polygon = "(real \<times> real) list"

text \<open>
  \<^verbatim>\<open>np.maximum(label, cell_mask).astype(np.uint8)\<close> for a \<^verbatim>\<open>uint8\<close> array and a boolean
  array of the same shape: \<^verbatim>\<open>True\<close> counts as 1.
\<close>

definition np_maximum :: "8 word list list \<Rightarrow> bool list list \<Rightarrow> 8 word list list" where
  "np_maximum label cell_mask = map2 (map2 (\<lambda>l b. max l (if b then 1 else 0))) label cell_mask"

text \<open>
  \<^verbatim>\<open>int(x)\<close> on a \<^verbatim>\<open>float64\<close>: Python raises \<^verbatim>\<open>ValueError\<close> on \<^verbatim>\<open>nan\<close> and
  \<^verbatim>\<open>OverflowError\<close> on an infinity.
\<close>

fun py_int_of_float :: "np_float \<Rightarrow> py_error + int" where
  "py_int_of_float (Finite x) = Inr (py_int x)"
| "py_int_of_float NaN = Inl (ValueError ''cannot convert float NaN to integer'')"
| "py_int_of_float PosInf = Inl OverflowError"
| "py_int_of_float NegInf = Inl OverflowError"

text \<open>The loop over the polygons, lines 80 to 88; \<open>p2m\<close> is \<^verbatim>\<open>polygon2mask\<close> at \<^verbatim>\<open>label.shape\<close>.\<close>

fun label_loop ::
  "(polygon \<Rightarrow> bool list list) \<Rightarrow> (bool list list \<Rightarrow> np_float \<times> np_float) \<Rightarrow> polygon list
     \<Rightarrow> 8 word list list \<Rightarrow> (int \<times> int) list \<Rightarrow> py_error + 8 word list list \<times> (int \<times> int) list" where
  "label_loop p2m centroid [] label centroids = Inr (label, centroids)"
| "label_loop p2m centroid (cell # cells) label centroids =
     (let cell_mask = p2m cell;
          label' = np_maximum label cell_mask;
          c = centroid cell_mask
      in case py_int_of_float (fst c) of
           Inl e \<Rightarrow> Inl e
         | Inr c0 \<Rightarrow>
            (case py_int_of_float (snd c) of
               Inl e \<Rightarrow> Inl e
             | Inr c1 \<Rightarrow> label_loop p2m centroid cells label' (centroids @ [(c0, c1)])))"

text \<open>
  \<^verbatim>\<open>annotation_to_label\<close>; the arguments \<^verbatim>\<open>image_id\<close> and \<^verbatim>\<open>region_id_list\<close> are not used by
  the function, and the image is used for its shape only.
\<close>

definition annotation_to_label ::
  "(int \<times> int \<Rightarrow> polygon \<Rightarrow> bool list list) \<Rightarrow> (bool list list \<Rightarrow> np_float \<times> np_float)
     \<Rightarrow> polygon list \<Rightarrow> ndarray \<Rightarrow> py_error + 8 word list list \<times> (int \<times> int) list" where
  "annotation_to_label polygon2mask centroid verts_list' img =
     (let label = replicate (nat (shape0 img)) (replicate (nat (shape1 img)) 0)
      in label_loop (polygon2mask (shape0 img, shape1 img)) centroid verts_list' label [])"

text \<open>
  What the specification means by a pixel that lies strictly inside a polygon. The pixel
  of row \<open>r\<close> and column \<open>c\<close> is the point \<open>(r, c)\<close>, and the polygon is closed by the edge
  from its last vertex to its first. The point lies strictly inside when it is on no edge
  and the ray from it towards the larger columns crosses an odd number of edges.
\<close>

definition polygon_edges :: "polygon \<Rightarrow> ((real \<times> real) \<times> (real \<times> real)) list" where
  "polygon_edges cell = zip cell (rotate1 cell)"

definition on_edge :: "real \<times> real \<Rightarrow> (real \<times> real) \<times> (real \<times> real) \<Rightarrow> bool" where
  "on_edge p e \<longleftrightarrow>
     (case (p, e) of ((y, x), (y1, x1), (y2, x2)) \<Rightarrow>
        (y2 - y1) * (x - x1) = (x2 - x1) * (y - y1)
        \<and> min y1 y2 \<le> y \<and> y \<le> max y1 y2 \<and> min x1 x2 \<le> x \<and> x \<le> max x1 x2)"

definition crosses :: "real \<times> real \<Rightarrow> (real \<times> real) \<times> (real \<times> real) \<Rightarrow> bool" where
  "crosses p e \<longleftrightarrow>
     (case (p, e) of ((y, x), (y1, x1), (y2, x2)) \<Rightarrow>
        (y1 \<le> y) \<noteq> (y2 \<le> y) \<and> x < x1 + (y - y1) * (x2 - x1) / (y2 - y1))"

definition strictly_inside :: "polygon \<Rightarrow> real \<times> real \<Rightarrow> bool" where
  "strictly_inside cell p \<longleftrightarrow>
     odd (length (filter (crosses p) (polygon_edges cell)))
     \<and> \<not> (\<exists>e \<in> set (polygon_edges cell). on_edge p e)"

section \<open>The dataset adapter\<close>

text \<open>The fields of the configuration that \<^verbatim>\<open>prepare_dataset\<close> reads.\<close>

record config =
  dataset_name :: string
  dataset_path :: string
  target_dim :: "int list"
  train_val_test_ratio :: string
  random_seed :: int
  batch_size :: int
  num_workers :: int

text \<open>
  What \<^verbatim>\<open>prepare_dataset\<close> calls and the sources at hand do not hold: the class
  \<^verbatim>\<open>SyntheticDataset\<close> with its method \<^verbatim>\<open>num_image_channel\<close>, \<^verbatim>\<open>split_dataset\<close>,
  \<^verbatim>\<open>ExtendedDataset\<close>, \<^verbatim>\<open>len\<close> on the subsets, the \<^verbatim>\<open>DataLoader\<close> of the \<^verbatim>\<open>torch\<close> library
  with its arguments \<^verbatim>\<open>dataset\<close>, \<^verbatim>\<open>batch_size\<close>, \<^verbatim>\<open>shuffle\<close> and \<^verbatim>\<open>num_workers\<close>, and Python's
  \<^verbatim>\<open>float\<close> on a string. They are parameters of the model, and each of them may raise.
\<close>

record ('ds, 'sub, 'ld) collaborators =
  SyntheticDataset :: "string \<Rightarrow> int list \<Rightarrow> py_error + 'ds"
  num_image_channel :: "'ds \<Rightarrow> py_error + int"
  py_float :: "string \<Rightarrow> py_error + real"
  split_dataset :: "'ds \<Rightarrow> real list \<Rightarrow> int \<Rightarrow> py_error + 'sub \<times> 'sub \<times> 'sub"
  py_len :: "'sub \<Rightarrow> int"
  ExtendedDataset :: "'sub \<Rightarrow> int \<Rightarrow> py_error + 'sub"
  DataLoader :: "'sub \<Rightarrow> int \<Rightarrow> bool \<Rightarrow> int \<Rightarrow> py_error + 'ld"

text \<open>
  A run of \<^verbatim>\<open>prepare_dataset\<close> is described by the constructions it starts, in order, and
  by what it returns or raises. \<open>construct ev r\<close> is a construction with outcome \<open>r\<close>,
  \<open>plain r\<close> a step that constructs nothing, and \<open>and_then\<close> runs the rest of the function
  on the value of a step that did not raise.
\<close>

datatype construction =
  Construct_SyntheticDataset | Call_split_dataset | Construct_ExtendedDataset | Construct_DataLoader

type_synonym 'a run = "construction list \<times> (py_error + 'a)"

definition construct :: "construction \<Rightarrow> py_error + 'a \<Rightarrow> 'a run" where
  "construct ev r = ([ev], r)"

definition plain :: "py_error + 'a \<Rightarrow> 'a run" where
  "plain r = ([], r)"

definition and_then :: "'a run \<Rightarrow> ('a \<Rightarrow> 'b run) \<Rightarrow> 'b run" where
  "and_then m f =
     (case snd m of
        Inl e \<Rightarrow> (fst m, Inl e)
      | Inr x \<Rightarrow> (fst m @ fst (f x), snd (f x)))"

text \<open>\<^verbatim>\<open>s.split(sep)\<close> for a separator of one character.\<close>

fun py_split :: "char \<Rightarrow> string \<Rightarrow> string list" where
  "py_split sep [] = [[]]"
| "py_split sep (c # cs) =
     (if c = sep then [] # py_split sep cs
      else (case py_split sep cs of
              [] \<Rightarrow> [[c]]
            | w # ws \<Rightarrow> (c # w) # ws))"

text \<open>A list comprehension whose element expression may raise: the first error wins.\<close>

fun map_raising :: "('a \<Rightarrow> py_error + 'b) \<Rightarrow> 'a list \<Rightarrow> py_error + 'b list" where
  "map_raising f [] = Inr []"
| "map_raising f (x # xs) =
     (case f x of
        Inl e \<Rightarrow> Inl e
      | Inr y \<Rightarrow> (case map_raising f xs of Inl e \<Rightarrow> Inl e | Inr ys \<Rightarrow> Inr (y # ys)))"

text \<open>
  Lines 20 and 21: the ratios of the configuration, normalised to sum 1. Python raises
  \<^verbatim>\<open>ZeroDivisionError\<close> on a division of doubles by zero. The doubles are modelled by the
  reals they denote and the rounding of the sum and of the quotients is left out: the
  values go to \<^verbatim>\<open>split_dataset\<close> only.
\<close>

definition normalised_ratios :: "(string \<Rightarrow> py_error + real) \<Rightarrow> string \<Rightarrow> py_error + real list" where
  "normalised_ratios float ratio_string =
     (case map_raising float (py_split CHR '':'' ratio_string) of
        Inl e \<Rightarrow> Inl e
      | Inr ratios \<Rightarrow>
          map_raising (\<lambda>c. if sum_list ratios = 0 then Inl ZeroDivisionError
                            else Inr (c / sum_list ratios)) ratios)"

definition prepare_dataset ::
  "('ds, 'sub, 'ld) collaborators \<Rightarrow> config \<Rightarrow> ('ld \<times> 'ld \<times> 'ld \<times> int) run" where
  "prepare_dataset env config =
     (if dataset_name config = ''synthetic'' then
        and_then (construct Construct_SyntheticDataset
                    (SyntheticDataset env (dataset_path config) (target_dim config))) (\<lambda>dataset.
        and_then (plain (num_image_channel env dataset)) (\<lambda>num_channel.
        and_then (plain (normalised_ratios (py_float env) (train_val_test_ratio config))) (\<lambda>ratios.
        and_then (construct Call_split_dataset
                    (split_dataset env dataset ratios (random_seed config))) (\<lambda>(train_set, val_set, test_set).
        let min_batch_per_epoch = 5;
            desired_len = max (py_len env train_set) (batch_size config * min_batch_per_epoch)
        in
        and_then (construct Construct_ExtendedDataset
                    (ExtendedDataset env train_set desired_len)) (\<lambda>train_set'.
        and_then (construct Construct_DataLoader
                    (DataLoader env train_set' (batch_size config) True (num_workers config))) (\<lambda>train_loader.
        and_then (construct Construct_DataLoader
                    (DataLoader env val_set (py_len env val_set) False (num_workers config))) (\<lambda>val_loader.
        and_then (construct Construct_DataLoader
                    (DataLoader env test_set (py_len env test_set) False (num_workers config))) (\<lambda>test_loader.
        plain (Inr (train_loader, val_loader, test_loader, num_channel))))))))))
      else
        plain (Inl (ValueError ''Dataset not found. Check `dataset_name` in config yaml file.'')))"

section \<open>Example inputs\<close>

text \<open>
  A three-channel image of 3 rows and 5 columns and a mask of the same shape. With tiles
  of edge 2 the grid has one row of two tiles; the last row and the last column of the
  image are left over.
\<close>

definition example_image :: ndarray where
  "example_image =
     [[[1, 2, 3], [4, 5, 6], [7, 8, 9], [10, 11, 12], [13, 14, 15]],
      [[16, 17, 18], [19, 20, 21], [22, 23, 24], [25, 26, 27], [28, 29, 30]],
      [[31, 32, 33], [34, 35, 36], [37, 38, 39], [40, 41, 42], [43, 44, 45]]]"

definition example_mask :: ndarray where
  "example_mask =
     [[[0, 0, 0], [255, 255, 255], [255, 255, 255], [0, 0, 0], [0, 0, 0]],
      [[0, 0, 0], [255, 255, 255], [0, 0, 0], [0, 0, 0], [255, 255, 255]],
      [[0, 0, 0], [0, 0, 0], [0, 0, 0], [255, 255, 255], [255, 255, 255]]]"

text \<open>
  The first job of the partitioner at 20 percent, and a black image of the size of the
  dataset's images, 1000 by 1000.
\<close>

definition example_job :: job where
  "example_job = \<lparr>cancer_type = ''breast'', percentage = 20, test_item_count = 0,
                    test_item = ''TCGA-AC-A2FO-01A-01-TS1''\<rparr>"

definition example_1000 :: ndarray where
  "example_1000 = replicate 1000 (replicate 1000 [0, 0, 0])"

text \<open>
  Three regions of three collinear vertices each: one whose \<^verbatim>\<open>Area\<close> attribute is 5.0, one
  whose attribute is the enclosed area, 0.0, and a triangle of area 2 with two vertices
  only listed.
\<close>

definition collinear_vertices :: "vertex list" where
  "collinear_vertices = [\<lparr>attr_X = 0, attr_Y = 0\<rparr>, \<lparr>attr_X = 1, attr_Y = 1\<rparr>, \<lparr>attr_X = 2, attr_Y = 2\<rparr>]"

definition collinear_region_area5 :: region where
  "collinear_region_area5 = \<lparr>attr_Area = 5.0, attr_Id = 7, vertices = collinear_vertices\<rparr>"

definition collinear_region_area0 :: region where
  "collinear_region_area0 = \<lparr>attr_Area = 0.0, attr_Id = 8, vertices = collinear_vertices\<rparr>"

definition triangle_region :: region where
  "triangle_region = \<lparr>attr_Area = 2.0, attr_Id = 9,
     vertices = [\<lparr>attr_X = 0, attr_Y = 0\<rparr>, \<lparr>attr_X = 2, attr_Y = 0\<rparr>, \<lparr>attr_X = 0, attr_Y = 2\<rparr>]\<rparr>"

text \<open>
  A mask of 2 rows and 3 columns with three nuclei pixels, and four detected points: one
  on a nucleus, one on the background, one below the last row and one left of the first
  column.
\<close>

definition example_gray_mask :: "8 word list list" where
  "example_gray_mask = [[0, 255, 0], [255, 0, 255]]"

definition example_points :: "(real \<times> real) list" where
  "example_points = [(0.5, 1.25), (1.5, 1), (2, 1), (1, -0.5)]"

text \<open>
  Stand-ins for the two library functions, for example runs of the rasterizer: the raster
  of the bounding box of a polygon, which holds every pixel of the polygon, and the mean
  row and column of the raster's pixels, which is \<^verbatim>\<open>nan\<close> for a raster without pixels.
\<close>

definition box_polygon2mask :: "int \<times> int \<Rightarrow> polygon \<Rightarrow> bool list list" where
  "box_polygon2mask sh cell =
     map (\<lambda>r. map (\<lambda>c. (\<exists>v \<in> set cell. fst v \<le> real r) \<and> (\<exists>v \<in> set cell. real r \<le> fst v)
                       \<and> (\<exists>v \<in> set cell. snd v \<le> real c) \<and> (\<exists>v \<in> set cell. real c \<le> snd v))
                 [0..<nat (snd sh)])
         [0..<nat (fst sh)]"

definition mean_centroid :: "bool list list \<Rightarrow> np_float \<times> np_float" where
  "mean_centroid cell_mask =
     (let pts = concat (map (\<lambda>r. concat (map (\<lambda>c. if cell_mask ! r ! c then [(r, c)] else [])
                                       [0..<length (cell_mask ! r)]))
                         [0..<length cell_mask])
      in if pts = [] then (NaN, NaN)
         else (Finite (real (sum_list (map fst pts)) / real (length pts)),
               Finite (real (sum_list (map snd pts)) / real (length pts))))"

definition example_polygons :: "polygon list" where
  "example_polygons = [[(0, 0), (0, 1.5), (1.5, 1.5), (1.5, 0)], [(1, 3), (2, 4), (2, 3)]]"

text \<open>
  A region that the parser keeps and whose polygon holds no pixel: a sliver of three
  vertices between the rows 0 and 1 of the example image, which encloses the area 1.0 that
  its \<^verbatim>\<open>Area\<close> attribute declares.
\<close>

definition sliver_region :: region where
  "sliver_region = \<lparr>attr_Area = 1.0, attr_Id = 3,
     vertices = [\<lparr>attr_X = 0, attr_Y = 0.25\<rparr>, \<lparr>attr_X = 0, attr_Y = 0.75\<rparr>, \<lparr>attr_X = 4, attr_Y = 0.5\<rparr>]\<rparr>"

text \<open>
  Collaborators for an example run of \<^verbatim>\<open>prepare_dataset\<close>: every construction succeeds,
  the dataset has 3 channels, every subset has 10 items, and \<^verbatim>\<open>float\<close> is Python's on the
  strings of decimal digits, the only ones the example gives it.
\<close>

definition float_of_digits :: "string \<Rightarrow> py_error + real" where
  "float_of_digits s =
     (if s \<noteq> [] \<and> (\<forall>c \<in> set s. (48::nat) \<le> of_char c \<and> of_char c \<le> (57::nat))
      then Inr (real (foldl (\<lambda>n c. 10 * n + (of_char c - 48)) (0::nat) s))
      else Inl (ValueError ''could not convert string to float''))"

definition example_collaborators :: "(unit, unit, string) collaborators" where
  "example_collaborators =
     \<lparr>SyntheticDataset = (\<lambda>_ _. Inr ()),
      num_image_channel = (\<lambda>_. Inr 3),
      py_float = float_of_digits,
      split_dataset = (\<lambda>_ _ _. Inr ((), (), ())),
      py_len = (\<lambda>_. 10),
      ExtendedDataset = (\<lambda>_ _. Inr ()),
      DataLoader = (\<lambda>_ _ shuffle _. Inr (if shuffle then ''shuffled loader'' else ''loader''))\<rparr>"

definition example_config :: config where
  "example_config =
     \<lparr>dataset_name = ''synthetic'', dataset_path = ''data/synthetic'', target_dim = [32, 32],
      train_val_test_ratio = ''8:1:1'', random_seed = 1, batch_size = 4, num_workers = 1\<rparr>"

definition zero_ratio_config :: config where
  "zero_ratio_config = example_config\<lparr>train_val_test_ratio := ''0:0:0''\<rparr>"



definition small_mask_store :: files where
  "small_mask_store =
     (\<lambda>p. if p = train_mask_folder @ ''TCGA-A7-A13E-01Z-00-DX1.png'' then Some (map (take 2) example_mask)
          else if input_path p then Some example_image else None)"

definition image_only_store :: files where
  "image_only_store = (\<lambda>p. if p = test_image_folder @ ''TCGA-AC-A2FO-01A-01-TS1.png'' then Some example_image else None)"

section \<open>Lemmas on slices and on the grid\<close>

declare str_nat.simps [simp del]


lemma py_slice_nat:
  "b \<le> e \<Longrightarrow> e \<le> length xs \<Longrightarrow> py_slice (int b) (int e) xs = take (e - b) (drop b xs)"
  by (simp add: py_slice_def py_bound_def Let_def)

lemma shape0_has_shape: "has_shape a H W \<Longrightarrow> shape0 a = int H"
  by (simp add: has_shape_def shape0_def)

lemma shape1_has_shape: "has_shape a H W \<Longrightarrow> 0 < H \<Longrightarrow> shape1 a = int W"
  by (cases a) (auto simp: has_shape_def shape1_def)

lemma py_slice_block:
  "h + s \<le> length xs \<Longrightarrow> py_slice (int h) (int h + int s) xs = take s (drop h xs)"
  using py_slice_nat [of h "h + s" xs] by simp

lemma concat_map_grid:
  "concat (map (\<lambda>h. concat (map (\<lambda>w. f h w) [0..<n])) [0..<m])
     = concat (map (\<lambda>k. f (k div n) (k mod n)) [0..<m * n])"
proof (induction m)
  case 0
  show ?case by simp
next
  case (Suc m)
  have "[0..<m * n + n] = [0..<m * n] @ [m * n..<m * n + n]"
    by (rule upt_add_eq_append) simp
  moreover have "[m * n..<m * n + n] = map (\<lambda>i. i + m * n) [0..<n]"
    using map_add_upt [of "m * n" n] by (simp only: add.commute)
  ultimately have split: "[0..<Suc m * n] = [0..<m * n] @ map (\<lambda>i. i + m * n) [0..<n]"
    by (simp only: mult_Suc add.commute)
  have last_row: "map (\<lambda>k. f (k div n) (k mod n)) (map (\<lambda>i. i + m * n) [0..<n]) = map (\<lambda>w. f m w) [0..<n]"
    by (rule nth_equalityI) simp_all
  have "concat (map (\<lambda>k. f (k div n) (k mod n)) [0..<Suc m * n])
          = concat (map (\<lambda>k. f (k div n) (k mod n)) [0..<m * n]) @ concat (map (\<lambda>w. f m w) [0..<n])"
    by (simp only: split map_append concat_append last_row)
  then show ?case
    using Suc.IH by simp
qed

lemma slice2d_spec_tile:
  assumes "has_shape a H W" and "h + s \<le> H" and "w + s \<le> W"
  shows "slice2d (int h) (int h + int s) (int w) (int w + int s) a = spec_tile a s h w"
proof -
  have len: "length a = H" and rows: "\<And>i. i < H \<Longrightarrow> length (a ! i) = W"
    using assms(1) by (auto simp: has_shape_def)
  have outer: "py_slice (int h) (int h + int s) a = take s (drop h a)"
    using assms(2) len by (simp add: py_slice_block)
  show ?thesis
  proof (rule nth_equalityI)
    show "length (slice2d (int h) (int h + int s) (int w) (int w + int s) a) = length (spec_tile a s h w)"
      using assms(2) len by (simp add: slice2d_def outer spec_tile_def)
  next
    fix i assume "i < length (slice2d (int h) (int h + int s) (int w) (int w + int s) a)"
    then have i: "i < s"
      using assms(2) len by (simp add: slice2d_def outer)
    then have row: "length (a ! (h + i)) = W"
      using rows assms(2) by simp
    have "slice2d (int h) (int h + int s) (int w) (int w + int s) a ! i
            = py_slice (int w) (int w + int s) (a ! (h + i))"
      using i assms(2) len by (simp add: slice2d_def outer)
    also have "\<dots> = take s (drop w (a ! (h + i)))"
      using assms(3) row by (simp add: py_slice_block)
    also have "\<dots> = map (\<lambda>j. a ! (h + i) ! (w + j)) [0..<s]"
      using assms(3) row by (intro nth_equalityI) simp_all
    finally show "slice2d (int h) (int h + int s) (int w) (int w + int s) a ! i = spec_tile a s h w ! i"
      using i by (simp add: spec_tile_def)
  qed
qed



lemma chunk_bound:
  fixes hc s H :: nat
  assumes "hc < H div s"
  shows "hc * s + s \<le> H"
proof -
  have "Suc hc * s \<le> (H div s) * s"
    using assms by (intro mult_le_mono1) simp
  also have "\<dots> \<le> H"
    by simp
  finally show ?thesis
    by (simp add: add.commute)
qed

lemma nat_int_div: "nat (int a div int b) = a div b"
  by (simp flip: zdiv_int)

lemma py_range_div: "py_range (int H div int s) = map int [0..<H div s]"
  by (simp add: py_range_def zdiv_int [symmetric])

lemma patchify_tile_spec:
  assumes "has_shape img H W" and "has_shape msk H W"
    and "hc < H div s" and "wc < W div s"
  shows "patchify_tile tf ct sd item (int s) img msk (int hc) (int wc) =
     [(tf @ ''/'' @ ct @ ''/'' @ sd @ ''/images/'' @ tile_name item (int (hc * s)) (int (wc * s)),
         spec_tile img s (hc * s) (wc * s)),
      (tf @ ''/'' @ ct @ ''/'' @ sd @ ''/masks/'' @ tile_name item (int (hc * s)) (int (wc * s)),
         spec_tile msk s (hc * s) (wc * s))]"
proof -
  have hb: "hc * s + s \<le> H" and wb: "wc * s + s \<le> W"
    using assms(3,4) by (simp_all add: chunk_bound)
  have "0 < H"
    using assms(3) by (cases H) auto
  then have sh: "shape0 img = int H" "shape1 img = int W"
    using assms(1) by (simp_all add: shape0_has_shape shape1_has_shape)
  have mins: "min (int hc * int s + int s) (int H) = int (hc * s) + int s"
             "min (int wc * int s + int s) (int W) = int (wc * s) + int s"
    using hb wb by (simp_all add: min_def flip: of_nat_mult of_nat_add)
  have maxs: "max (int hc * int s) 0 = int (hc * s)" "max (int wc * int s) 0 = int (wc * s)"
    by (simp_all flip: of_nat_mult)
  show ?thesis
    unfolding patchify_tile_def Let_def sh mins maxs
    using slice2d_spec_tile [OF assms(1) hb wb] slice2d_spec_tile [OF assms(2) hb wb]
    by simp
qed

lemma patchify_image_grid:
  assumes "0 < s" and "has_shape img H W" and "has_shape msk H W"
  shows "patchify_image tf ct sd item (int s) img msk =
     Inr (concat (map (\<lambda>k.
            [(tf @ ''/'' @ ct @ ''/'' @ sd @ ''/images/''
                @ tile_name item (int (k div (W div s) * s)) (int (k mod (W div s) * s)),
              spec_tile img s (k div (W div s) * s) (k mod (W div s) * s)),
             (tf @ ''/'' @ ct @ ''/'' @ sd @ ''/masks/''
                @ tile_name item (int (k div (W div s) * s)) (int (k mod (W div s) * s)),
              spec_tile msk s (k div (W div s) * s) (k mod (W div s) * s))])
          [0..<(H div s) * (W div s)]))"
proof -
  let ?T = "\<lambda>hc wc. patchify_tile tf ct sd item (int s) img msk (int hc) (int wc)"
  have sh0: "shape0 img = int H"
    using assms(2) by (rule shape0_has_shape)
  have loops: "patchify_image tf ct sd item (int s) img msk =
      Inr (concat (map (\<lambda>hc. concat (map (\<lambda>wc. ?T hc wc) [0..<nat (shape1 img div int s)])) [0..<H div s]))"
    using assms(1) by (simp add: patchify_image_def Let_def sh0 py_range_def comp_def nat_int_div)
  show ?thesis
  proof (cases "H div s = 0")
    case True
    then show ?thesis
      unfolding loops by simp
  next
    case False
    then have "0 < H"
      by (cases H) auto
    then have sh1: "nat (shape1 img div int s) = W div s"
      using assms(2) by (simp add: shape1_has_shape nat_int_div)
    have "concat (map (\<lambda>k. ?T (k div (W div s)) (k mod (W div s))) [0..<(H div s) * (W div s)])
        = concat (map (\<lambda>k.
            [(tf @ ''/'' @ ct @ ''/'' @ sd @ ''/images/''
                @ tile_name item (int (k div (W div s) * s)) (int (k mod (W div s) * s)),
              spec_tile img s (k div (W div s) * s) (k mod (W div s) * s)),
             (tf @ ''/'' @ ct @ ''/'' @ sd @ ''/masks/''
                @ tile_name item (int (k div (W div s) * s)) (int (k mod (W div s) * s)),
              spec_tile msk s (k div (W div s) * s) (k mod (W div s) * s))])
          [0..<(H div s) * (W div s)])"
    proof (rule arg_cong [where f = concat], rule map_cong [OF refl])
      fix k assume "k \<in> set [0..<(H div s) * (W div s)]"
      then have k: "k < (H div s) * (W div s)"
        by simp
      then have "0 < W div s"
        by (cases "W div s") auto
      then have wc: "k mod (W div s) < W div s"
        by simp
      have hc: "k div (W div s) < H div s"
        using k by (simp add: less_mult_imp_div_less)
      show "?T (k div (W div s)) (k mod (W div s)) =
            [(tf @ ''/'' @ ct @ ''/'' @ sd @ ''/images/''
                @ tile_name item (int (k div (W div s) * s)) (int (k mod (W div s) * s)),
              spec_tile img s (k div (W div s) * s) (k mod (W div s) * s)),
             (tf @ ''/'' @ ct @ ''/'' @ sd @ ''/masks/''
                @ tile_name item (int (k div (W div s) * s)) (int (k mod (W div s) * s)),
              spec_tile msk s (k div (W div s) * s) (k mod (W div s) * s))]"
        by (rule patchify_tile_spec [OF assms(2,3) hc wc])
    qed
    then show ?thesis
      unfolding loops sh1 concat_map_grid by simp
  qed
qed



lemma foldl_grid:
  "foldl (\<lambda>st h. foldl (\<lambda>st w. f st h w) st [0..<n]) st0 [0..<m]
     = foldl (\<lambda>st k. f st (k div n) (k mod n)) st0 [0..<m * n]"
proof (induction m)
  case 0
  show ?case by simp
next
  case (Suc m)
  have "[0..<m * n + n] = [0..<m * n] @ [m * n..<m * n + n]"
    by (rule upt_add_eq_append) simp
  moreover have "[m * n..<m * n + n] = map (\<lambda>i. i + m * n) [0..<n]"
    using map_add_upt [of "m * n" n] by (simp only: add.commute)
  ultimately have split: "[0..<Suc m * n] = [0..<m * n] @ map (\<lambda>i. i + m * n) [0..<n]"
    by (simp only: mult_Suc add.commute)
  have last_row: "foldl (\<lambda>st k. f st (k div n) (k mod n)) st (map (\<lambda>i. i + m * n) [0..<n])
                    = foldl (\<lambda>st w. f st m w) st [0..<n]" for st
  proof -
    have "foldl (\<lambda>st k. f st (k div n) (k mod n)) st (map (\<lambda>i. i + m * n) [0..<n])
            = foldl (\<lambda>st i. f st ((i + m * n) div n) ((i + m * n) mod n)) st [0..<n]"
      by (simp add: foldl_map)
    also have "\<dots> = foldl (\<lambda>st w. f st m w) st [0..<n]"
      by (rule foldl_cong) auto
    finally show ?thesis .
  qed
  show ?case
    by (simp only: split foldl_append last_row upt_Suc_append [OF le0] foldl_Cons foldl_Nil Suc.IH)
qed

lemma times0_zeros_like: "times0 a = zeros_like a"
  by (simp add: times0_def zeros_like_def)

lemma set_slice_block:
  "h + s \<le> length xs \<Longrightarrow> set_slice (int h) (int h + int s) xs vs = take h xs @ vs @ drop (h + s) xs"
proof -
  assume "h + s \<le> length xs"
  then have "py_bound (int h) (length xs) = h" "py_bound (int (h + s)) (length xs) = h + s"
    by (simp_all add: py_bound_def)
  then show ?thesis
    by (simp add: set_slice_def Let_def)
qed

lemma length_set_slice_block:
  "h + s \<le> length xs \<Longrightarrow> length vs = s \<Longrightarrow> length (set_slice (int h) (int h + int s) xs vs) = length xs"
  by (simp add: set_slice_block)

lemma nth_set_slice_block:
  assumes "h + s \<le> length xs" and "length vs = s" and "i < length xs"
  shows "set_slice (int h) (int h + int s) xs vs ! i = (if h \<le> i \<and> i < h + s then vs ! (i - h) else xs ! i)"
proof -
  consider "i < h" | "h \<le> i" "i < h + s" | "h + s \<le> i"
    by linarith
  then show ?thesis
  proof cases
    case 1
    then show ?thesis
      using assms by (simp add: set_slice_block nth_append)
  next
    case 2
    then have "i - h < s"
      by linarith
    with 2 show ?thesis
      using assms by (simp add: set_slice_block nth_append)
  next
    case 3
    then have far: "\<not> i < h" "\<not> i - h < s" "\<not> i < h + s" and idx: "h + s + (i - h - s) = i"
      by linarith+
    have "set_slice (int h) (int h + int s) xs vs ! i = drop (h + s) xs ! (i - h - s)"
      using assms far by (simp add: set_slice_block nth_append)
    also have "\<dots> = xs ! i"
      using assms(1) idx by (simp only: nth_drop)
    finally show ?thesis
      using far by simp
  qed
qed



lemma has_shape_nth: "has_shape a H W \<Longrightarrow> i < H \<Longrightarrow> length (a ! i) = W"
  by (simp add: has_shape_def)

lemma has_shapeI: "length a = H \<Longrightarrow> (\<And>i. i < H \<Longrightarrow> length (a ! i) = W) \<Longrightarrow> has_shape a H W"
  by (auto simp: has_shape_def in_set_conv_nth)

lemma has_shape_length: "has_shape a H W \<Longrightarrow> length a = H"
  by (simp add: has_shape_def)

lemma has_shape_ext:
  assumes "has_shape a H W" and "has_shape b H W"
    and "\<And>i j. i < H \<Longrightarrow> j < W \<Longrightarrow> a ! i ! j = b ! i ! j"
  shows "a = b"
proof (rule nth_equalityI)
  show "length a = length b"
    using assms(1,2) by (simp add: has_shape_length)
next
  fix i assume "i < length a"
  then have i: "i < H"
    using assms(1) by (simp add: has_shape_length)
  show "a ! i = b ! i"
    using assms i by (intro nth_equalityI) (simp_all add: has_shape_nth)
qed

lemma has_shape_spec_tile: "has_shape (spec_tile a s h w) s s"
  by (simp add: has_shape_def spec_tile_def)

lemma nth_spec_tile: "i < s \<Longrightarrow> j < s \<Longrightarrow> spec_tile a s h w ! i ! j = a ! (h + i) ! (w + j)"
  by (simp add: spec_tile_def)

lemma has_shape_zeros_like: "has_shape a H W \<Longrightarrow> has_shape (zeros_like a) H W"
  by (auto simp: has_shape_def zeros_like_def)

lemma nth_zeros_like:
  "i < length a \<Longrightarrow> j < length (a ! i) \<Longrightarrow> zeros_like a ! i ! j = map (\<lambda>_. 0) (a ! i ! j)"
  by (simp add: zeros_like_def)

lemma set_slice2d_block:
  assumes a: "has_shape a H W" and v: "has_shape v s s" and h: "h + s \<le> H" and w: "w + s \<le> W"
  shows "has_shape (set_slice2d (int h) (int h + int s) (int w) (int w + int s) a v) H W"
    and "\<And>i j. i < H \<Longrightarrow> j < W \<Longrightarrow>
           set_slice2d (int h) (int h + int s) (int w) (int w + int s) a v ! i ! j
             = (if h \<le> i \<and> i < h + s \<and> w \<le> j \<and> j < w + s then v ! (i - h) ! (j - w) else a ! i ! j)"
proof -
  let ?rows = "map2 (\<lambda>row vrow. set_slice (int w) (int w + int s) row vrow) (take s (drop h a)) v"
  have la: "length a = H" and lv: "length v = s"
    using a v by (simp_all add: has_shape_length)
  have eq: "set_slice2d (int h) (int h + int s) (int w) (int w + int s) a v
              = set_slice (int h) (int h + int s) a ?rows"
    using h la by (simp add: set_slice2d_def py_slice_block)
  have lrows: "length ?rows = s"
    using h la lv by simp
  have row: "?rows ! r = set_slice (int w) (int w + int s) (a ! (h + r)) (v ! r)" if "r < s" for r
    using that h la lv by simp
  have lrow: "length (?rows ! r) = W" if "r < s" for r
  proof -
    have "length (a ! (h + r)) = W" "length (v ! r) = s"
      using that a v h by (simp_all add: has_shape_nth)
    then show ?thesis
      using w that by (simp only: row length_set_slice_block)
  qed
  have nth_outer: "set_slice (int h) (int h + int s) a ?rows ! i
                     = (if h \<le> i \<and> i < h + s then ?rows ! (i - h) else a ! i)" if "i < H" for i
    using that h la lrows by (intro nth_set_slice_block) simp_all
  show "has_shape (set_slice2d (int h) (int h + int s) (int w) (int w + int s) a v) H W"
  proof (rule has_shapeI)
    show "length (set_slice2d (int h) (int h + int s) (int w) (int w + int s) a v) = H"
      unfolding eq using h la lrows by (simp only: length_set_slice_block)
  next
    fix i assume i: "i < H"
    show "length (set_slice2d (int h) (int h + int s) (int w) (int w + int s) a v ! i) = W"
    proof (cases "h \<le> i \<and> i < h + s")
      case True
      then have "i - h < s"
        by linarith
      then show ?thesis
        unfolding eq nth_outer [OF i] using True lrow by simp
    next
      case False
      then have "set_slice (int h) (int h + int s) a ?rows ! i = a ! i"
        unfolding nth_outer [OF i] by (simp only: if_False)
      then show ?thesis
        unfolding eq using a i by (simp only: has_shape_nth)
    qed
  qed
  fix i j assume i: "i < H" and j: "j < W"
  show "set_slice2d (int h) (int h + int s) (int w) (int w + int s) a v ! i ! j
          = (if h \<le> i \<and> i < h + s \<and> w \<le> j \<and> j < w + s then v ! (i - h) ! (j - w) else a ! i ! j)"
  proof (cases "h \<le> i \<and> i < h + s")
    case True
    then have r: "i - h < s" and idx_i: "h + (i - h) = i"
      by linarith+
    have "length (a ! i) = W" "length (v ! (i - h)) = s"
      using a v i r by (simp_all add: has_shape_nth)
    then have "set_slice (int w) (int w + int s) (a ! i) (v ! (i - h)) ! j
                 = (if w \<le> j \<and> j < w + s then v ! (i - h) ! (j - w) else a ! i ! j)"
      using w j by (intro nth_set_slice_block) simp_all
    then show ?thesis
      unfolding eq nth_outer [OF i] using True row [OF r] idx_i by simp
  next
    case False
    then have "set_slice (int h) (int h + int s) a ?rows ! i = a ! i"
      unfolding nth_outer [OF i] by (simp only: if_False)
    then show ?thesis
      unfolding eq using False by auto
  qed
qed



lemma has_shape_spec_effective:
  "has_shape a H W \<Longrightarrow> has_shape (spec_effective a s nw n t) H W"
  by (rule has_shapeI) (simp_all add: spec_effective_def has_shape_length has_shape_nth)

lemma nth_spec_effective:
  "has_shape a H W \<Longrightarrow> i < H \<Longrightarrow> j < W \<Longrightarrow>
     spec_effective a s nw n t ! i ! j
       = (if \<exists>k \<in> {t..<n}. in_tile s nw k i j then a ! i ! j else map (\<lambda>_. 0) (a ! i ! j))"
  by (simp add: spec_effective_def has_shape_length has_shape_nth)

lemma spec_effective_none: "has_shape a H W \<Longrightarrow> n \<le> t \<Longrightarrow> spec_effective a s nw n t = zeros_like a"
  by (rule has_shape_ext [of _ H W])
     (simp_all add: has_shape_spec_effective has_shape_zeros_like nth_spec_effective nth_zeros_like
        has_shape_length has_shape_nth)

lemma intraimage_tile_spec:
  assumes "has_shape img H W" and "has_shape msk H W"
    and "hc < H div s" and "wc < W div s"
  shows "intraimage_tile (int s) j img msk target st (int hc) (int wc) =
     (if curr_count st < target then
        st\<lparr>written := written st @ spec_tile_writes (int s) j img msk s True (hc * s) (wc * s),
           curr_count := curr_count st + 1\<rparr>
      else
        st\<lparr>written := written st @ spec_tile_writes (int s) j img msk s False (hc * s) (wc * s),
           image_effective := set_slice2d (int (hc * s)) (int (hc * s) + int s) (int (wc * s)) (int (wc * s) + int s)
              (image_effective st) (spec_tile img s (hc * s) (wc * s)),
           mask_effective := set_slice2d (int (hc * s)) (int (hc * s) + int s) (int (wc * s)) (int (wc * s) + int s)
              (mask_effective st) (spec_tile msk s (hc * s) (wc * s)),
           curr_count := curr_count st + 1\<rparr>)"
proof -
  have hb: "hc * s + s \<le> H" and wb: "wc * s + s \<le> W"
    using assms(3,4) by (simp_all add: chunk_bound)
  have "0 < H"
    using assms(3) by (cases H) auto
  then have sh: "shape0 img = int H" "shape1 img = int W"
    using assms(1) by (simp_all add: shape0_has_shape shape1_has_shape)
  have mins: "min (int hc * int s + int s) (int H) = int (hc * s) + int s"
             "min (int wc * int s + int s) (int W) = int (wc * s) + int s"
    using hb wb by (simp_all add: min_def flip: of_nat_mult of_nat_add)
  have maxs: "max (int hc * int s) 0 = int (hc * s)" "max (int wc * int s) 0 = int (wc * s)"
    by (simp_all flip: of_nat_mult)
  have muls: "int hc * int s = int (hc * s)" "int wc * int s = int (wc * s)"
    by simp_all
  show ?thesis
    unfolding intraimage_tile_def Let_def sh mins maxs
    unfolding muls slice2d_spec_tile [OF assms(1) hb wb] slice2d_spec_tile [OF assms(2) hb wb]
    by (simp add: spec_tile_writes_def times0_zeros_like)
qed



lemma canvas_step:
  assumes a: "has_shape a H W" and hc: "n div nw < H div s" and wc: "n mod nw < W div s" and t: "t \<le> n"
  shows "set_slice2d (int (n div nw * s)) (int (n div nw * s) + int s)
            (int (n mod nw * s)) (int (n mod nw * s) + int s)
            (spec_effective a s nw n t) (spec_tile a s (n div nw * s) (n mod nw * s))
         = spec_effective a s nw (Suc n) t"
proof -
  let ?h = "n div nw * s" and ?w = "n mod nw * s"
  have hb: "?h + s \<le> H" and wb: "?w + s \<le> W"
    using hc wc by (simp_all add: chunk_bound)
  note blk = set_slice2d_block [OF has_shape_spec_effective [OF a] has_shape_spec_tile hb wb]
  show ?thesis
  proof (rule has_shape_ext [of _ H W])
    show "has_shape (set_slice2d (int ?h) (int ?h + int s) (int ?w) (int ?w + int s)
            (spec_effective a s nw n t) (spec_tile a s ?h ?w)) H W"
      by (rule blk(1))
    show "has_shape (spec_effective a s nw (Suc n) t) H W"
      using a by (rule has_shape_spec_effective)
  next
    fix i j assume i: "i < H" and j: "j < W"
    have split: "(\<exists>k \<in> {t..<Suc n}. in_tile s nw k i j)
                   \<longleftrightarrow> (\<exists>k \<in> {t..<n}. in_tile s nw k i j) \<or> in_tile s nw n i j"
      using t by (auto simp: less_Suc_eq)
    have here: "in_tile s nw n i j \<longleftrightarrow> ?h \<le> i \<and> i < ?h + s \<and> ?w \<le> j \<and> j < ?w + s"
      by (simp add: in_tile_def tile_row_def tile_col_def)
    have "set_slice2d (int ?h) (int ?h + int s) (int ?w) (int ?w + int s)
            (spec_effective a s nw n t) (spec_tile a s ?h ?w) ! i ! j
          = (if in_tile s nw n i j then spec_tile a s ?h ?w ! (i - ?h) ! (j - ?w)
             else spec_effective a s nw n t ! i ! j)"
      unfolding here by (rule blk(2) [OF i j])
    also have "\<dots> = spec_effective a s nw (Suc n) t ! i ! j"
    proof (cases "in_tile s nw n i j")
      case True
      then have "i - ?h < s" "j - ?w < s" "?h + (i - ?h) = i" "?w + (j - ?w) = j"
        unfolding here by linarith+
      then have "spec_tile a s ?h ?w ! (i - ?h) ! (j - ?w) = a ! i ! j"
        by (simp add: nth_spec_tile)
      then show ?thesis
        using True split by (simp add: nth_spec_effective [OF a i j])
    next
      case False
      then show ?thesis
        using split by (simp add: nth_spec_effective [OF a i j])
    qed
    finally show "set_slice2d (int ?h) (int ?h + int s) (int ?w) (int ?w + int s)
            (spec_effective a s nw n t) (spec_tile a s ?h ?w) ! i ! j
          = spec_effective a s nw (Suc n) t ! i ! j" .
  qed
qed

lemma partition_loop:
  assumes img: "has_shape img H W" and msk: "has_shape msk H W" and n: "n \<le> (H div s) * (W div s)"
  shows "foldl (\<lambda>st k. intraimage_tile (int s) j img msk target st
                    (int (k div (W div s))) (int (k mod (W div s))))
           \<lparr>curr_count = 0, image_effective = zeros_like img, mask_effective = zeros_like msk, written = []\<rparr>
           [0..<n]
         = \<lparr>curr_count = int n,
            image_effective = spec_effective img s (W div s) n (nat target),
            mask_effective = spec_effective msk s (W div s) n (nat target),
            written = concat (map (\<lambda>k. spec_tile_writes (int s) j img msk s (k < nat target)
                        (tile_row s (W div s) k) (tile_col s (W div s) k)) [0..<n])\<rparr>"
  using n
proof (induction n)
  case 0
  show ?case
    using img msk by (simp add: spec_effective_none)
next
  case (Suc n)
  let ?nw = "W div s"
  have k: "n < (H div s) * ?nw"
    using Suc.prems by simp
  then have "0 < ?nw"
    by (cases "?nw") auto
  then have wc: "n mod ?nw < ?nw"
    by simp
  have hc: "n div ?nw < H div s"
    using k by (simp add: less_mult_imp_div_less)
  note tile = intraimage_tile_spec [OF img msk hc wc]
  have IH: "foldl (\<lambda>st k. intraimage_tile (int s) j img msk target st
                    (int (k div ?nw)) (int (k mod ?nw)))
           \<lparr>curr_count = 0, image_effective = zeros_like img, mask_effective = zeros_like msk, written = []\<rparr>
           [0..<n]
         = \<lparr>curr_count = int n,
            image_effective = spec_effective img s ?nw n (nat target),
            mask_effective = spec_effective msk s ?nw n (nat target),
            written = concat (map (\<lambda>k. spec_tile_writes (int s) j img msk s (k < nat target)
                        (tile_row s ?nw k) (tile_col s ?nw k)) [0..<n])\<rparr>"
    using Suc.IH k by simp
  show ?case
  proof (cases "n < nat target")
    case True
    then have ev: "int n < target" and le: "Suc n \<le> nat target" "n \<le> nat target"
      by linarith+
    show ?thesis
      using ev True img msk le
      by (simp add: IH tile spec_effective_none tile_row_def tile_col_def del: of_nat_mult of_nat_add)
  next
    case False
    then have ho: "\<not> int n < target" and t: "nat target \<le> n"
      by linarith+
    show ?thesis
      using ho False
      by (simp add: IH tile canvas_step [OF img hc wc t] canvas_step [OF msk hc wc t]
            tile_row_def tile_col_def del: of_nat_mult of_nat_add)
  qed
qed



lemma intraimage_image_spec:
  assumes s: "0 < s" and img: "has_shape img H W" and msk: "has_shape msk H W"
  shows "intraimage_image (int s) j img msk =
     Inr \<lparr>curr_count = int ((H div s) * (W div s)),
          image_effective = spec_effective img s (W div s) ((H div s) * (W div s))
             (nat (py_ceil_div (percentage j * int ((H div s) * (W div s))) 100)),
          mask_effective = spec_effective msk s (W div s) ((H div s) * (W div s))
             (nat (py_ceil_div (percentage j * int ((H div s) * (W div s))) 100)),
          written = concat (map (\<lambda>k. spec_tile_writes (int s) j img msk s
                       (k < nat (py_ceil_div (percentage j * int ((H div s) * (W div s))) 100))
                       (tile_row s (W div s) k) (tile_col s (W div s) k)) [0..<(H div s) * (W div s)])
            @ [(test_tree (int s) j @ ''/'' @ test_item j @ ''_effective_image.png'',
                  spec_effective img s (W div s) ((H div s) * (W div s))
                    (nat (py_ceil_div (percentage j * int ((H div s) * (W div s))) 100))),
               (test_tree (int s) j @ ''/'' @ test_item j @ ''_effective_mask.png'',
                  spec_effective msk s (W div s) ((H div s) * (W div s))
                    (nat (py_ceil_div (percentage j * int ((H div s) * (W div s))) 100)))]\<rparr>"
proof -
  let ?nh = "H div s" and ?nw = "W div s"
  let ?st0 = "\<lparr>curr_count = 0, image_effective = zeros_like img, mask_effective = zeros_like msk,
                 written = []\<rparr>"
  have sh0: "shape0 img = int H"
    using img by (rule shape0_has_shape)
  have counts: "(int H div int s) * (shape1 img div int s) = int (?nh * ?nw)"
    and cols: "?nh \<noteq> 0 \<Longrightarrow> nat (shape1 img div int s) = ?nw"
  proof -
    show "?nh \<noteq> 0 \<Longrightarrow> nat (shape1 img div int s) = ?nw"
    proof -
      assume "?nh \<noteq> 0"
      then have "0 < H"
        by (cases H) auto
      then show ?thesis
        using img by (simp add: shape1_has_shape nat_int_div)
    qed
    then show "(int H div int s) * (shape1 img div int s) = int (?nh * ?nw)"
    proof (cases "?nh = 0")
      case True
      then show ?thesis
        by (simp flip: zdiv_int)
    next
      case False
      then have "0 < H"
        by (cases H) auto
      then show ?thesis
        using img by (simp add: shape1_has_shape zdiv_int)
    qed
  qed
  have loops: "foldl (\<lambda>st h_chunk.
                 foldl (\<lambda>st w_chunk. intraimage_tile (int s) j img msk target st h_chunk w_chunk)
                   st (py_range (shape1 img div int s)))
               ?st0 (py_range (int H div int s))
             = foldl (\<lambda>st k. intraimage_tile (int s) j img msk target st (int (k div ?nw)) (int (k mod ?nw)))
                 ?st0 [0..<?nh * ?nw]" for target
  proof (cases "?nh = 0")
    case True
    then show ?thesis
      by (simp add: py_range_def nat_int_div)
  next
    case False
    show ?thesis
      unfolding py_range_def nat_int_div cols [OF False] foldl_map
      by (rule foldl_grid)
  qed
  show ?thesis
    using s
    by (simp add: intraimage_image_def Let_def sh0 counts loops partition_loop [OF img msk order_refl]
          del: of_nat_mult of_nat_add)
qed



lemma block_div:
  fixes c s i :: nat
  assumes "0 < s"
  shows "c * s \<le> i \<and> i < c * s + s \<longleftrightarrow> i div s = c"
proof
  assume "c * s \<le> i \<and> i < c * s + s"
  then have "c \<le> i div s" "i div s < Suc c"
    using assms by (simp_all add: less_eq_div_iff_mult_less_eq div_less_iff_less_mult)
  then show "i div s = c"
    by simp
next
  assume "i div s = c"
  then have "c \<le> i div s" "i div s < Suc c"
    by simp_all
  then show "c * s \<le> i \<and> i < c * s + s"
    using assms by (simp_all add: less_eq_div_iff_mult_less_eq div_less_iff_less_mult)
qed

lemma in_tile_iff:
  assumes "0 < s"
  shows "in_tile s nw k i j \<longleftrightarrow> i div s = k div nw \<and> j div s = k mod nw"
proof -
  have "in_tile s nw k i j \<longleftrightarrow>
          (k div nw * s \<le> i \<and> i < k div nw * s + s) \<and> (k mod nw * s \<le> j \<and> j < k mod nw * s + s)"
    by (auto simp: in_tile_def tile_row_def tile_col_def)
  then show ?thesis
    by (simp only: block_div [OF assms])
qed

lemma in_tile_unique:
  assumes s: "0 < s" and i: "i < nh * s" and j: "j < nw * s"
  shows "\<exists>!k. k < nh * nw \<and> in_tile s nw k i j"
proof (rule ex1I [of _ "(i div s) * nw + j div s"])
  have r: "i div s < nh" and c: "j div s < nw"
    using s i j by (simp_all add: div_less_iff_less_mult)
  have "(i div s) * nw + j div s < (i div s) * nw + nw"
    using c by simp
  also have "\<dots> = Suc (i div s) * nw"
    by simp
  also have "\<dots> \<le> nh * nw"
    using r by (intro mult_le_mono1) simp
  finally have "(i div s) * nw + j div s < nh * nw" .
  then show "(i div s) * nw + j div s < nh * nw \<and> in_tile s nw ((i div s) * nw + j div s) i j"
    using c by (simp add: in_tile_iff [OF s])
next
  fix k assume "k < nh * nw \<and> in_tile s nw k i j"
  then have "i div s = k div nw" "j div s = k mod nw"
    by (simp_all add: in_tile_iff [OF s])
  then show "k = (i div s) * nw + j div s"
    by simp
qed

lemma tile_inside:
  assumes "k < (H div s) * (W div s)"
  shows "tile_row s (W div s) k + s \<le> H \<and> tile_col s (W div s) k + s \<le> W"
proof -
  have "0 < W div s"
    using assms by (cases "W div s") auto
  then have "k mod (W div s) < W div s"
    by simp
  moreover have "k div (W div s) < H div s"
    using assms by (simp add: less_mult_imp_div_less)
  ultimately show ?thesis
    by (simp add: tile_row_def tile_col_def chunk_bound)
qed

lemma grid_offsets:
  "map (\<lambda>k. (tile_row s nw k, tile_col s nw k)) [0..<nh * nw]
     = concat (map (\<lambda>hc. map (\<lambda>wc. (hc * s, wc * s)) [0..<nw]) [0..<nh])"
proof -
  have "concat (map (\<lambda>hc. concat (map (\<lambda>wc. [(hc * s, wc * s)]) [0..<nw])) [0..<nh])
          = concat (map (\<lambda>k. [(k div nw * s, k mod nw * s)]) [0..<nh * nw])"
    by (rule concat_map_grid)
  then show ?thesis
    by (simp add: tile_row_def tile_col_def)
qed



lemma target_count_spec: "nat (py_ceil_div (p * int T) 100) = spec_target p T"
proof -
  have "\<lceil>real_of_int (p * int T) / real_of_int 100\<rceil> = - (- (p * int T) div 100)"
    by (rule ceiling_divide_eq_div)
  then show ?thesis
    by (simp add: py_ceil_div_def spec_target_def)
qed

lemma target_le_total:
  assumes "0 \<le> p" and "p \<le> 100"
  shows "spec_target p T \<le> T"
proof -
  have "p * int T \<le> 100 * int T"
    using assms(2) by (intro mult_right_mono) simp_all
  then have "- (100 * int T) \<le> - (p * int T)"
    by simp
  then have "- int T \<le> (- (p * int T)) div 100"
    by linarith
  then have "py_ceil_div (p * int T) 100 \<le> int T"
    by (simp add: py_ceil_div_def)
  then show ?thesis
    unfolding target_count_spec [symmetric] by simp
qed

lemma concat_map_split:
  assumes "t \<le> T"
  shows "concat (map (\<lambda>k. f (k < t) k) [0..<T])
           = concat (map (f True) [0..<t]) @ concat (map (f False) [t..<T])"
proof -
  have "[0..<T] = [0..<t] @ [t..<T]"
    using upt_add_eq_append [of 0 t "T - t"] assms by simp
  then have "concat (map (\<lambda>k. f (k < t) k) [0..<T])
               = concat (map (\<lambda>k. f (k < t) k) [0..<t]) @ concat (map (\<lambda>k. f (k < t) k) [t..<T])"
    by simp
  moreover have "map (\<lambda>k. f (k < t) k) [0..<t] = map (f True) [0..<t]"
    by simp
  moreover have "map (\<lambda>k. f (k < t) k) [t..<T] = map (f False) [t..<T]"
    by simp
  ultimately show ?thesis
    by simp
qed


section \<open>Lemmas on the parser\<close>


lemma load_regions_filter:
  "load_regions regions st =
     \<lparr>verts_list = verts_list st @
        map (\<lambda>r. map (\<lambda>v. (attr_Y v, attr_X v)) (vertices r))
          (filter (\<lambda>r. \<not> (attr_Area r < 1 \<or> length (vertices r) < 3)) regions),
      region_id_list = region_id_list st @
        map attr_Id (filter (\<lambda>r. \<not> (attr_Area r < 1 \<or> length (vertices r) < 3)) regions),
      cnt_invalid = cnt_invalid st +
        int (length (filter (\<lambda>r. attr_Area r < 1 \<or> length (vertices r) < 3) regions))\<rparr>"
  by (induction regions arbitrary: st) simp_all

lemma load_MoNuSeg_annotation_filter:
  "load_MoNuSeg_annotation regions =
     (map (\<lambda>r. map (\<lambda>v. (attr_Y v, attr_X v)) (vertices r))
        (filter (\<lambda>r. \<not> (attr_Area r < 1 \<or> length (vertices r) < 3)) regions),
      map attr_Id (filter (\<lambda>r. \<not> (attr_Area r < 1 \<or> length (vertices r) < 3)) regions))"
  by (simp add: load_MoNuSeg_annotation_def load_regions_filter)


section \<open>Lemmas on the evaluation of detected nuclei\<close>


lemma py_int_in_range:
  assumes "0 \<le> x" and "x < real n"
  shows "0 \<le> py_int x" and "py_int x < int n" and "nat (py_int x) < n"
proof -
  show a: "0 \<le> py_int x"
    using assms(1) by (simp add: py_int_def)
  have "\<lfloor>x\<rfloor> < int n"
    using assms(2) by (simp add: floor_less_iff)
  then show b: "py_int x < int n"
    using assms(1) by (simp add: py_int_def)
  show "nat (py_int x) < n"
    using a b by linarith
qed

lemma skip_test_iff:
  assumes "has_shape msk H W"
  shows "(fst n < 0 \<or> fst n \<ge> real_of_int (shape0 msk) \<or> snd n < 0 \<or> snd n \<ge> real_of_int (shape1 msk))
           \<longleftrightarrow> \<not> in_bounds H W n"
proof (cases "H = 0")
  case True
  then show ?thesis
    using assms by (auto simp: in_bounds_def shape0_has_shape)
next
  case False
  then have "shape0 msk = int H" "shape1 msk = int W"
    using assms by (simp_all add: shape0_has_shape shape1_has_shape)
  then show ?thesis
    by (auto simp: in_bounds_def)
qed

lemma np_setitem2_in_range:
  assumes a: "has_shape a H W" and i: "i < H" and j: "j < W"
  shows "np_setitem2 a (int i) (int j) v = Inr (a[i := (a ! i)[j := v]])"
    and "has_shape (a[i := (a ! i)[j := v]]) H W"
proof -
  have "0 < H"
    using i by simp
  then have "shape0 a = int H" "shape1 a = int W"
    using a by (simp_all add: shape0_has_shape shape1_has_shape)
  then show "np_setitem2 a (int i) (int j) v = Inr (a[i := (a ! i)[j := v]])"
    using i j by (simp add: np_setitem2_def)
  show "has_shape (a[i := (a ! i)[j := v]]) H W"
    using a i by (intro has_shapeI) (simp_all add: has_shape_length has_shape_nth nth_list_update)
qed

lemma nth_setitem2:
  assumes a: "has_shape a H W" and i: "i < H" and j: "j < W" and r: "r < H" and c: "c < W"
  shows "a[i := (a ! i)[j := v]] ! r ! c = (if r = i \<and> c = j then v else a ! r ! c)"
  using assms by (simp add: has_shape_length has_shape_nth nth_list_update)

lemma mark_nuclei_spec:
  assumes msk: "has_shape msk H W" and nm: "has_shape nuclei_mask H W"
  shows "\<exists>nuclei_mask'. mark_nuclei nuclei_list msk nuclei_mask = Inr nuclei_mask'
     \<and> has_shape nuclei_mask' H W
     \<and> mark_nuclei (filter (in_bounds H W) nuclei_list) msk nuclei_mask = Inr nuclei_mask'
     \<and> (\<forall>r < H. \<forall>c < W. nuclei_mask' ! r ! c =
           (if \<exists>n \<in> set nuclei_list. in_bounds H W n \<and> nat (py_int (fst n)) = r \<and> nat (py_int (snd n)) = c
            then 1 else nuclei_mask ! r ! c))"
  using nm
proof (induction nuclei_list arbitrary: nuclei_mask)
  case Nil
  then show ?case by simp
next
  case (Cons n nuclei_list)
  note test = skip_test_iff [OF msk, of n]
  show ?case
  proof (cases "in_bounds H W n")
    case False
    from Cons.IH [OF Cons.prems] obtain nm' where
      "mark_nuclei nuclei_list msk nuclei_mask = Inr nm'" "has_shape nm' H W"
      "mark_nuclei (filter (in_bounds H W) nuclei_list) msk nuclei_mask = Inr nm'"
      "\<forall>r < H. \<forall>c < W. nm' ! r ! c =
           (if \<exists>n \<in> set nuclei_list. in_bounds H W n \<and> nat (py_int (fst n)) = r \<and> nat (py_int (snd n)) = c
            then 1 else nuclei_mask ! r ! c)"
      by blast
    then show ?thesis
      using False test by (intro exI [of _ nm']) simp
  next
    case True
    let ?i = "nat (py_int (fst n))" and ?j = "nat (py_int (snd n))"
    let ?nm = "nuclei_mask[?i := (nuclei_mask ! ?i)[?j := 1]]"
    have i: "?i < H" "int ?i = py_int (fst n)" and j: "?j < W" "int ?j = py_int (snd n)"
      using True py_int_in_range [of "fst n" H] py_int_in_range [of "snd n" W]
      by (simp_all add: in_bounds_def)
    have set: "np_setitem2 nuclei_mask (py_int (fst n)) (py_int (snd n)) 1 = Inr ?nm"
      using np_setitem2_in_range(1) [OF Cons.prems i(1) j(1), of 1] by (simp only: i(2) j(2))
    have shape: "has_shape ?nm H W"
      by (rule np_setitem2_in_range(2) [OF Cons.prems i(1) j(1)])
    from Cons.IH [OF shape] obtain nm' where
      run: "mark_nuclei nuclei_list msk ?nm = Inr nm'" and sh: "has_shape nm' H W"
      and fil: "mark_nuclei (filter (in_bounds H W) nuclei_list) msk ?nm = Inr nm'"
      and pix: "\<forall>r < H. \<forall>c < W. nm' ! r ! c =
           (if \<exists>n \<in> set nuclei_list. in_bounds H W n \<and> nat (py_int (fst n)) = r \<and> nat (py_int (snd n)) = c
            then 1 else ?nm ! r ! c)"
      by blast
    have pix': "nm' ! r ! c =
           (if \<exists>m \<in> set (n # nuclei_list). in_bounds H W m \<and> nat (py_int (fst m)) = r \<and> nat (py_int (snd m)) = c
            then 1 else nuclei_mask ! r ! c)" if "r < H" "c < W" for r c
      using pix that True nth_setitem2 [OF Cons.prems i(1) j(1) that, of 1] by auto
    show ?thesis
      using True test run sh fil pix' set by (intro exI [of _ nm']) simp
  qed
qed


section \<open>Lemmas on the rasterizer\<close>


lemma np_maximum_shape:
  "has_shape label H W \<Longrightarrow> has_shape m H W \<Longrightarrow> has_shape (np_maximum label m) H W"
  by (rule has_shapeI) (simp_all add: np_maximum_def has_shape_length has_shape_nth)

lemma nth_np_maximum:
  "has_shape label H W \<Longrightarrow> has_shape m H W \<Longrightarrow> r < H \<Longrightarrow> c < W \<Longrightarrow>
     np_maximum label m ! r ! c = max (label ! r ! c) (if m ! r ! c then 1 else 0)"
  by (simp add: np_maximum_def has_shape_length has_shape_nth)

lemma label_loop_spec:
  assumes "has_shape label H W"
    and "\<forall>cell \<in> set cells. has_shape (p2m cell) H W"
    and "\<forall>cell \<in> set cells. \<exists>x y. centroid (p2m cell) = (Finite x, Finite y)"
  shows "\<exists>label' centroids'. label_loop p2m centroid cells label centroids = Inr (label', centroids')
     \<and> has_shape label' H W
     \<and> (\<forall>r < H. \<forall>c < W. label' ! r ! c =
           (if \<exists>cell \<in> set cells. p2m cell ! r ! c then max (label ! r ! c) 1 else label ! r ! c))
     \<and> length centroids' = length centroids + length cells
     \<and> take (length centroids) centroids' = centroids
     \<and> (\<forall>k < length cells. \<forall>x y. centroid (p2m (cells ! k)) = (Finite x, Finite y)
           \<longrightarrow> centroids' ! (length centroids + k) = (py_int x, py_int y))"
  using assms
proof (induction cells arbitrary: label centroids)
  case Nil
  then show ?case by simp
next
  case (Cons cell cells)
  from Cons.prems(3) obtain x y where cen: "centroid (p2m cell) = (Finite x, Finite y)"
    by auto
  have m: "has_shape (p2m cell) H W"
    using Cons.prems(2) by simp
  let ?label = "np_maximum label (p2m cell)"
  let ?cs = "centroids @ [(py_int x, py_int y)]"
  have sh: "has_shape ?label H W"
    using Cons.prems(1) m by (rule np_maximum_shape)
  have step: "label_loop p2m centroid (cell # cells) label centroids
                = label_loop p2m centroid cells ?label ?cs"
    by (simp add: cen Let_def)
  from Cons.IH [OF sh, of ?cs] Cons.prems(2,3) obtain label' centroids' where
    run: "label_loop p2m centroid cells ?label ?cs = Inr (label', centroids')"
    and sh': "has_shape label' H W"
    and pix: "\<forall>r < H. \<forall>c < W. label' ! r ! c =
           (if \<exists>cell \<in> set cells. p2m cell ! r ! c then max (?label ! r ! c) 1 else ?label ! r ! c)"
    and len: "length centroids' = length ?cs + length cells"
    and pre: "take (length ?cs) centroids' = ?cs"
    and cs: "\<forall>k < length cells. \<forall>x y. centroid (p2m (cells ! k)) = (Finite x, Finite y)
           \<longrightarrow> centroids' ! (length ?cs + k) = (py_int x, py_int y)"
    by auto
  have pix': "label' ! r ! c =
           (if \<exists>cell' \<in> set (cell # cells). p2m cell' ! r ! c then max (label ! r ! c) 1 else label ! r ! c)"
    if "r < H" "c < W" for r c
  proof -
    have "label' ! r ! c =
           (if \<exists>cell \<in> set cells. p2m cell ! r ! c then max (?label ! r ! c) 1 else ?label ! r ! c)"
      using pix that by blast
    moreover have "?label ! r ! c = max (label ! r ! c) (if p2m cell ! r ! c then 1 else 0)"
      using Cons.prems(1) m that by (rule nth_np_maximum)
    ultimately show ?thesis
      by (auto simp: max_def)
  qed
  have pre': "take (length centroids) centroids' = centroids"
  proof -
    have "take (length centroids) (take (length ?cs) centroids') = centroids"
      unfolding pre by simp
    then show ?thesis
      by (simp add: min_def)
  qed
  have first: "centroids' ! length centroids = (py_int x, py_int y)"
  proof -
    have "take (length ?cs) centroids' ! length centroids = ?cs ! length centroids"
      unfolding pre by (rule refl)
    then show ?thesis
      by simp
  qed
  have cs': "centroids' ! (length centroids + k) = (py_int x', py_int y')"
    if "k < length (cell # cells)" "centroid (p2m ((cell # cells) ! k)) = (Finite x', Finite y')" for k x' y'
  proof (cases k)
    case 0
    then show ?thesis
      using that(2) cen first by simp
  next
    case (Suc k')
    then show ?thesis
      using that cs by simp
  qed
  show ?case
    unfolding step run using sh' pix' len pre' cs' by simp
qed

lemma label_loop_returns_iff:
  "(\<exists>res. label_loop p2m centroid cells label centroids = Inr res)
     \<longleftrightarrow> (\<forall>cell \<in> set cells. \<exists>x y. centroid (p2m cell) = (Finite x, Finite y))"
proof (induction cells arbitrary: label centroids)
  case Nil
  show ?case by simp
next
  case (Cons cell cells)
  obtain a b where cen: "centroid (p2m cell) = (a, b)"
    by (cases "centroid (p2m cell)") auto
  show ?case
  proof (cases "\<exists>x y. a = Finite x \<and> b = Finite y")
    case True
    then obtain x y where fin: "a = Finite x" "b = Finite y"
      by blast
    have "label_loop p2m centroid (cell # cells) label centroids
            = label_loop p2m centroid cells (np_maximum label (p2m cell)) (centroids @ [(py_int x, py_int y)])"
      by (simp add: cen fin Let_def)
    then show ?thesis
      using Cons.IH [of "np_maximum label (p2m cell)" "centroids @ [(py_int x, py_int y)]"]
      by (simp add: cen fin)
  next
    case False
    then have "\<exists>e. label_loop p2m centroid (cell # cells) label centroids = Inl e"
      by (cases a; cases b) (simp_all add: cen Let_def)
    moreover have "\<not> (\<exists>x y. centroid (p2m cell) = (Finite x, Finite y))"
      using False by (simp add: cen)
    ultimately show ?thesis
      by auto
  qed
qed

section \<open>Lemmas on whole runs\<close>














lemma left_by_append: "left_by ok n (ws @ ws') = left_by ok n ws @ left_by ok (n + length ws) ws'"
  by (induction ws arbitrary: n) simp_all


















text \<open>
  Two runs that raise. The first training mask of \<open>small_mask_store\<close> has two columns, so
  the second tile of the mask is empty: the tiler completes three calls and raises on the
  fourth. \<open>image_only_store\<close> has no mask: with tiles larger than the image the partitioner
  writes the image canvas and raises on the mask canvas; with a tile in the image it
  raises at the first slice of the mask.
\<close>

lemma patchify_job_raises_on_empty_mask_tile:
  "patchify_job 2 (''breast'', ''train'', ''TCGA-A7-A13E-01Z-00-DX1'') small_mask_store =
   ([(''../../external_data/MoNuSeg/MoNuSegByCancer_2x2//breast/train/images/TCGA-A7-A13E-01Z-00-DX1_H0W0.png'',
       [[[1, 2, 3], [4, 5, 6]], [[16, 17, 18], [19, 20, 21]]]),
     (''../../external_data/MoNuSeg/MoNuSegByCancer_2x2//breast/train/masks/TCGA-A7-A13E-01Z-00-DX1_H0W0.png'',
       [[[0, 0, 0], [255, 255, 255]], [[0, 0, 0], [255, 255, 255]]]),
     (''../../external_data/MoNuSeg/MoNuSegByCancer_2x2//breast/train/images/TCGA-A7-A13E-01Z-00-DX1_H0W2.png'',
       [[[7, 8, 9], [10, 11, 12]], [[22, 23, 24], [25, 26, 27]]])], Some Cv2Error)"
  by code_simp

lemma tiler_raises_on_empty_mask_tile:
  "snd (subset_patchify_MoNuSeg_data_by_cancer ok 2 small_mask_store) =
   ([(''../../external_data/MoNuSeg/MoNuSegByCancer_2x2//breast/train/images/TCGA-A7-A13E-01Z-00-DX1_H0W0.png'',
       [[[1, 2, 3], [4, 5, 6]], [[16, 17, 18], [19, 20, 21]]]),
     (''../../external_data/MoNuSeg/MoNuSegByCancer_2x2//breast/train/masks/TCGA-A7-A13E-01Z-00-DX1_H0W0.png'',
       [[[0, 0, 0], [255, 255, 255]], [[0, 0, 0], [255, 255, 255]]]),
     (''../../external_data/MoNuSeg/MoNuSegByCancer_2x2//breast/train/images/TCGA-A7-A13E-01Z-00-DX1_H0W2.png'',
       [[[7, 8, 9], [10, 11, 12]], [[22, 23, 24], [25, 26, 27]]])], Some Cv2Error)"
proof -
  obtain rest where jobs: "patchify_jobs = (''breast'', ''train'', ''TCGA-A7-A13E-01Z-00-DX1'') # rest"
    by (simp add: patchify_jobs_def train_list_def)
  show ?thesis
    by (simp add: subset_patchify_MoNuSeg_data_by_cancer_def jobs patchify_job_raises_on_empty_mask_tile)
qed

lemma intraimage_job_missing_mask_without_tile:
  "intraimage_job 10 \<lparr>cancer_type = ''breast'', percentage = 5, test_item_count = 0,
                        test_item = ''TCGA-AC-A2FO-01A-01-TS1''\<rparr> image_only_store =
   ([(''../../external_data/MoNuSeg/MoNuSegByCancer_intraimage5pct_10x10//breast/img0_test/TCGA-AC-A2FO-01A-01-TS1_effective_image.png'',
       replicate 3 (replicate 5 [0, 0, 0]))], Some Cv2Error)"
  by code_simp

lemma intraimage_job_missing_mask_with_tile:
  "intraimage_job 2 \<lparr>cancer_type = ''breast'', percentage = 5, test_item_count = 0,
                       test_item = ''TCGA-AC-A2FO-01A-01-TS1''\<rparr> image_only_store = ([], Some TypeError)"
  by code_simp

lemma partitioner_raises_on_missing_mask:
  "snd (subset_patchify_MoNuSeg_data_by_cancer_intraimage ok 10 image_only_store) =
   ([(''../../external_data/MoNuSeg/MoNuSegByCancer_intraimage5pct_10x10//breast/img0_test/TCGA-AC-A2FO-01A-01-TS1_effective_image.png'',
       replicate 3 (replicate 5 [0, 0, 0]))], Some Cv2Error)"
  and "snd (subset_patchify_MoNuSeg_data_by_cancer_intraimage ok 2 image_only_store) = ([], Some TypeError)"
proof -
  obtain rest where jobs: "intraimage_jobs =
      \<lparr>cancer_type = ''breast'', percentage = 5, test_item_count = 0,
        test_item = ''TCGA-AC-A2FO-01A-01-TS1''\<rparr> # rest"
    by (simp add: intraimage_jobs_def test_list_def enumerate_eq_zip)
  show "snd (subset_patchify_MoNuSeg_data_by_cancer_intraimage ok 10 image_only_store) =
   ([(''../../external_data/MoNuSeg/MoNuSegByCancer_intraimage5pct_10x10//breast/img0_test/TCGA-AC-A2FO-01A-01-TS1_effective_image.png'',
       replicate 3 (replicate 5 [0, 0, 0]))], Some Cv2Error)"
    by (simp add: subset_patchify_MoNuSeg_data_by_cancer_intraimage_def jobs
          intraimage_job_missing_mask_without_tile)
  show "snd (subset_patchify_MoNuSeg_data_by_cancer_intraimage ok 2 image_only_store) = ([], Some TypeError)"
    by (simp add: subset_patchify_MoNuSeg_data_by_cancer_intraimage_def jobs
          intraimage_job_missing_mask_with_tile)
qed

section \<open>Lemmas on the file names\<close>


lemma of_char_digit_char:
  assumes "d < 10"
  shows "(of_char (digit_char d) :: nat) = 48 + d"
proof -
  have "(of_char (digit_char d) :: nat) = (48 + d) mod 256"
    by (simp only: digit_char_def of_char_of)
  also have "\<dots> = 48 + d"
    using assms by (intro mod_less) linarith
  finally show ?thesis .
qed

lemma digit_char_inj:
  assumes "d < 10" and "e < 10" and "digit_char d = digit_char e"
  shows "d = e"
proof -
  have "48 + d = (of_char (digit_char d) :: nat)"
    using assms(1) by (simp only: of_char_digit_char)
  also have "\<dots> = of_char (digit_char e)"
    by (simp only: assms(3))
  also have "\<dots> = 48 + e"
    using assms(2) by (simp only: of_char_digit_char)
  finally show ?thesis
    by linarith
qed

lemma digit_char_not_letter:
  assumes "d < 10"
  shows "digit_char d \<noteq> CHR ''W''" and "digit_char d \<noteq> CHR ''e''" and "digit_char d \<noteq> CHR ''k''"
proof -
  have v: "of_char (digit_char d) = 48 + d"
    using assms by (rule of_char_digit_char)
  show "digit_char d \<noteq> CHR ''W''"
  proof
    assume "digit_char d = CHR ''W''"
    then have "(of_char (digit_char d) :: nat) = of_char CHR ''W''" by simp
    then show False using v assms by simp
  qed
  show "digit_char d \<noteq> CHR ''e''"
  proof
    assume "digit_char d = CHR ''e''"
    then have "(of_char (digit_char d) :: nat) = of_char CHR ''e''" by simp
    then show False using v assms by simp
  qed
  show "digit_char d \<noteq> CHR ''k''"
  proof
    assume "digit_char d = CHR ''k''"
    then have "(of_char (digit_char d) :: nat) = of_char CHR ''k''" by simp
    then show False using v assms by simp
  qed
qed

lemma str_nat_last: "\<exists>ds d. d < 10 \<and> str_nat n = ds @ [digit_char d]"
proof (cases "n < 10")
  case True
  then have "str_nat n = [] @ [digit_char n]"
    by (simp add: str_nat.simps [of n])
  with True show ?thesis by blast
next
  case False
  then have "str_nat n = str_nat (n div 10) @ [digit_char (n mod 10)]"
    by (simp add: str_nat.simps [of n])
  moreover have "n mod 10 < 10" by simp
  ultimately show ?thesis by blast
qed

lemma str_nat_not_Nil: "str_nat n \<noteq> []"
  using str_nat_last [of n] by auto

lemma str_nat_digits: "c \<in> set (str_nat n) \<Longrightarrow> \<exists>d < 10. c = digit_char d"
proof (induction n rule: str_nat.induct)
  case (1 n)
  show ?case
  proof (cases "n < 10")
    case True
    then show ?thesis
      using "1.prems" by (auto simp: str_nat.simps [of n])
  next
    case False
    from "1.prems" False consider "c \<in> set (str_nat (n div 10))" | "c = digit_char (n mod 10)"
      by (auto simp: str_nat.simps [of n])
    then show ?thesis
    proof cases
      case 1
      then show ?thesis
        using "1.IH" False by blast
    next
      case 2
      moreover have "n mod 10 < 10" by simp
      ultimately show ?thesis by blast
    qed
  qed
qed

lemma str_nat_no_W: "CHR ''W'' \<notin> set (str_nat n)"
proof
  assume "CHR ''W'' \<in> set (str_nat n)"
  then obtain d where "d < 10" "CHR ''W'' = digit_char d"
    using str_nat_digits by blast
  then show False
    using digit_char_not_letter(1) [of d] by simp
qed

lemma str_nat_inj: "str_nat n = str_nat m \<Longrightarrow> n = m"
proof (induction n arbitrary: m rule: str_nat.induct)
  case (1 n)
  show ?case
  proof (cases "n < 10")
    case n: True
    show ?thesis
    proof (cases "m < 10")
      case True
      then show ?thesis
        using "1.prems" n digit_char_inj by (simp add: str_nat.simps [of n] str_nat.simps [of m])
    next
      case False
      then show ?thesis
        using "1.prems" n str_nat_not_Nil [of "m div 10"]
        by (simp add: str_nat.simps [of n] str_nat.simps [of m] Cons_eq_append_conv)
    qed
  next
    case n: False
    show ?thesis
    proof (cases "m < 10")
      case True
      then show ?thesis
        using "1.prems" n str_nat_not_Nil [of "n div 10"]
        by (simp add: str_nat.simps [of n] str_nat.simps [of m] append_eq_Cons_conv)
    next
      case False
      then have parts: "str_nat (n div 10) = str_nat (m div 10)" "digit_char (n mod 10) = digit_char (m mod 10)"
        using "1.prems" n by (simp_all add: str_nat.simps [of n] str_nat.simps [of m])
      have "n div 10 = m div 10"
        using "1.IH" [OF n parts(1)] .
      moreover have "n mod 10 = m mod 10"
        using parts(2) by (intro digit_char_inj) simp_all
      ultimately show ?thesis
        by (metis div_mult_mod_eq)
    qed
  qed
qed

lemma str_int_nat: "str_int (int n) = str_nat n"
  by (simp add: str_int_def)

lemma split_at_separator:
  assumes "c \<notin> set xs" and "c \<notin> set ys" and "xs @ c # r = ys @ c # r'"
  shows "xs = ys \<and> r = r'"
  using assms
proof (induction xs arbitrary: ys)
  case Nil
  then show ?case by (cases ys) auto
next
  case (Cons x xs)
  then show ?case by (cases ys) auto
qed

lemma tile_name_inj:
  assumes "tile_name item (int h) (int w) = tile_name item (int h') (int w')"
  shows "h = h' \<and> w = w'"
proof -
  from assms have "str_nat h @ CHR ''W'' # (str_nat w @ ''.png'') = str_nat h' @ CHR ''W'' # (str_nat w' @ ''.png'')"
    by (simp add: tile_name_def str_int_nat)
  from split_at_separator [OF str_nat_no_W str_nat_no_W this]
  have "str_nat h = str_nat h'" "str_nat w = str_nat w'"
    by simp_all
  then show ?thesis
    by (simp add: str_nat_inj)
qed

lemma tile_offsets_inj:
  assumes "0 < s"
    and "tile_row s nw k = tile_row s nw k'" and "tile_col s nw k = tile_col s nw k'"
  shows "k = k'"
proof -
  have "k div nw = k' div nw" "k mod nw = k' mod nw"
    using assms by (simp_all add: tile_row_def tile_col_def)
  then show ?thesis
    by (metis div_mult_mod_eq)
qed



lemma ends_differ:
  assumes "c \<noteq> c'"
  shows "xs @ c # ''.png'' \<noteq> ys @ c' # ''.png''"
proof
  assume "xs @ c # ''.png'' = ys @ c' # ''.png''"
  then have "rev (xs @ c # ''.png'') = rev (ys @ c' # ''.png'')"
    by (rule arg_cong)
  then show False
    using assms by simp
qed

lemma tile_name_end: "\<exists>ys d. d < 10 \<and> tile_name item (int h) (int w) = ys @ digit_char d # ''.png''"
proof -
  obtain ds d where d: "d < 10" "str_nat w = ds @ [digit_char d]"
    using str_nat_last by blast
  have "tile_name item (int h) (int w) = (item @ ''_H'' @ str_nat h @ ''W'' @ ds) @ digit_char d # ''.png''"
    by (simp add: tile_name_def str_int_nat d(2))
  with d(1) show ?thesis by blast
qed

lemma effective_name_not_tile_name:
  "A @ ''_effective_image.png'' \<noteq> B @ tile_name item (int h) (int w)"
  "A @ ''_effective_mask.png'' \<noteq> B @ tile_name item (int h) (int w)"
proof -
  obtain ys d where d: "d < 10" "tile_name item (int h) (int w) = ys @ digit_char d # ''.png''"
    using tile_name_end by blast
  have "(A @ ''_effective_imag'') @ CHR ''e'' # ''.png'' \<noteq> (B @ ys) @ digit_char d # ''.png''"
    using digit_char_not_letter(2) [OF d(1)] by (intro ends_differ) simp
  then show "A @ ''_effective_image.png'' \<noteq> B @ tile_name item (int h) (int w)"
    by (simp add: d(2))
  have "(A @ ''_effective_mas'') @ CHR ''k'' # ''.png'' \<noteq> (B @ ys) @ digit_char d # ''.png''"
    using digit_char_not_letter(3) [OF d(1)] by (intro ends_differ) simp
  then show "A @ ''_effective_mask.png'' \<noteq> B @ tile_name item (int h) (int w)"
    by (simp add: d(2))
qed

lemma distinct_concat_map_upt:
  assumes "\<And>k. k < T \<Longrightarrow> distinct (P k)"
    and "\<And>k k' p. k < T \<Longrightarrow> k' < T \<Longrightarrow> p \<in> set (P k) \<Longrightarrow> p \<in> set (P k') \<Longrightarrow> k = k'"
  shows "distinct (concat (map P [0..<T]))"
  using assms
proof (induction T)
  case 0
  show ?case by simp
next
  case (Suc T)
  have "distinct (concat (map P [0..<T]))"
    using Suc.prems by (intro Suc.IH) (simp, metis less_Suc_eq)
  moreover have "distinct (P T)"
    using Suc.prems(1) by simp
  moreover have "set (concat (map P [0..<T])) \<inter> set (P T) = {}"
  proof (rule ccontr)
    assume "set (concat (map P [0..<T])) \<inter> set (P T) \<noteq> {}"
    then obtain p k where "k < T" "p \<in> set (P k)" "p \<in> set (P T)"
      by auto
    then have "k = T"
      using Suc.prems(2) [of k T p] by simp
    with \<open>k < T\<close> show False by simp
  qed
  ultimately show ?case
    by simp
qed

lemma tree_roots: "\<exists>R. train_tree imsize j = R @ ''_train'' \<and> test_tree imsize j = R @ ''_test''"
  by (rule exI [of _ "intraimage_target_folder (percentage j) imsize @ ''/'' @ cancer_type j
        @ ''/img'' @ str_int (test_item_count j)"])
     (simp add: train_tree_def test_tree_def)

lemma written_paths_distinct:
  assumes s: "0 < s"
  shows "distinct (map fst
           (concat (map (\<lambda>k. spec_tile_writes imsize j img msk s (k < t)
                       (tile_row s nw k) (tile_col s nw k)) [0..<T])
            @ [(test_tree imsize j @ ''/'' @ test_item j @ ''_effective_image.png'', e1),
               (test_tree imsize j @ ''/'' @ test_item j @ ''_effective_mask.png'', e2)]))"
proof -
  obtain R where R: "train_tree imsize j = R @ ''_train''" "test_tree imsize j = R @ ''_test''"
    using tree_roots by blast
  let ?n = "\<lambda>k. tile_name (test_item j) (int (tile_row s nw k)) (int (tile_col s nw k))"
  let ?P = "\<lambda>k. map fst (spec_tile_writes imsize j img msk s (k < t) (tile_row s nw k) (tile_col s nw k))"
  have names: "k = k'" if "?n k = ?n k'" for k k'
    using tile_name_inj [OF that] tile_offsets_inj [OF s] by blast
  have Pk: "?P k = (if k < t
              then [R @ ''_train/images/'' @ ?n k, R @ ''_train/masks/'' @ ?n k,
                    R @ ''_test/images/'' @ ?n k, R @ ''_test/masks/'' @ ?n k]
              else [R @ ''_test/images/'' @ ?n k, R @ ''_test/masks/'' @ ?n k])" for k
    by (simp add: spec_tile_writes_def R)
  have d1: "distinct (?P k)" for k
    unfolding Pk by simp
  have d2: "k = k'" if "p \<in> set (?P k)" "p \<in> set (?P k')" for k k' p
  proof -
    from that have "?n k = ?n k'"
      unfolding Pk by (auto split: if_splits)
    then show ?thesis
      by (rule names)
  qed
  have tiles: "distinct (concat (map ?P [0..<T]))"
    by (rule distinct_concat_map_upt) (rule d1, rule d2)
  have members: "\<exists>B h w. p = B @ tile_name (test_item j) (int h) (int w)"
    if "p \<in> set (concat (map ?P [0..<T]))" for p
  proof -
    from that obtain k where "p \<in> set (?P k)"
      by auto
    then consider "p = (R @ ''_train/images/'') @ ?n k" | "p = (R @ ''_train/masks/'') @ ?n k"
      | "p = (R @ ''_test/images/'') @ ?n k" | "p = (R @ ''_test/masks/'') @ ?n k"
      unfolding Pk by (auto split: if_splits)
    then show ?thesis
      by cases blast+
  qed
  have e1: "test_tree imsize j @ ''/'' @ test_item j @ ''_effective_image.png'' \<notin> set (concat (map ?P [0..<T]))"
  proof
    assume "test_tree imsize j @ ''/'' @ test_item j @ ''_effective_image.png'' \<in> set (concat (map ?P [0..<T]))"
    from members [OF this] obtain B h w where
      "(test_tree imsize j @ ''/'' @ test_item j) @ ''_effective_image.png''
         = B @ tile_name (test_item j) (int h) (int w)"
      by auto
    then show False
      using effective_name_not_tile_name(1) by blast
  qed
  have e2: "test_tree imsize j @ ''/'' @ test_item j @ ''_effective_mask.png'' \<notin> set (concat (map ?P [0..<T]))"
  proof
    assume "test_tree imsize j @ ''/'' @ test_item j @ ''_effective_mask.png'' \<in> set (concat (map ?P [0..<T]))"
    from members [OF this] obtain B h w where
      "(test_tree imsize j @ ''/'' @ test_item j) @ ''_effective_mask.png''
         = B @ tile_name (test_item j) (int h) (int w)"
      by auto
    then show False
      using effective_name_not_tile_name(2) by blast
  qed
  have "map fst (concat (map (\<lambda>k. spec_tile_writes imsize j img msk s (k < t)
                       (tile_row s nw k) (tile_col s nw k)) [0..<T])) = concat (map ?P [0..<T])"
    by (simp add: map_concat comp_def)
  then show ?thesis
    using tiles e1 e2 by simp
qed

section \<open>The claims\<close>

subsection \<open>The grid tiler emits exactly the full tiles\<close>

text \<open>
  Claim C2. For an image and a mask of \<open>H\<close> rows and \<open>W\<close> columns and a tile size \<open>s > 0\<close>,
  the tiler returns and writes, for each of the \<open>(H div s) * (W div s)\<close> tiles of the
  row-major enumeration, one image tile and one mask tile, so \<open>2 * (H div s) * (W div s)\<close>
  files. Every file is an \<open>s \<times> s\<close> block of its source, the top-left pixels are exactly
  the pairs \<open>(hc * s, wc * s)\<close> with \<open>hc < H div s\<close> and \<open>wc < W div s\<close>, in row-major order,
  every tile lies inside the image, and every pixel of the \<open>s\<close>-aligned part of the image
  is in exactly one tile: the pixels of a trailing partial row or column are in none.
\<close>

theorem grid_tiler_emits_full_tiles:
  assumes "0 < s" and "has_shape img H W" and "has_shape msk H W"
  shows "\<exists>tiles. patchify_image target_folder ct split_dir item (int s) img msk = Inr tiles
     \<and> tiles = concat (map (\<lambda>k.
            [(target_folder @ ''/'' @ ct @ ''/'' @ split_dir @ ''/images/''
                @ tile_name item (int (tile_row s (W div s) k)) (int (tile_col s (W div s) k)),
              spec_tile img s (tile_row s (W div s) k) (tile_col s (W div s) k)),
             (target_folder @ ''/'' @ ct @ ''/'' @ split_dir @ ''/masks/''
                @ tile_name item (int (tile_row s (W div s) k)) (int (tile_col s (W div s) k)),
              spec_tile msk s (tile_row s (W div s) k) (tile_col s (W div s) k))])
          [0..<(H div s) * (W div s)])
     \<and> length tiles = 2 * ((H div s) * (W div s))
     \<and> (\<forall>t \<in> set tiles. has_shape (snd t) s s)
     \<and> map (\<lambda>k. (tile_row s (W div s) k, tile_col s (W div s) k)) [0..<(H div s) * (W div s)]
         = concat (map (\<lambda>hc. map (\<lambda>wc. (hc * s, wc * s)) [0..<W div s]) [0..<H div s])
     \<and> (\<forall>k < (H div s) * (W div s).
           tile_row s (W div s) k + s \<le> H \<and> tile_col s (W div s) k + s \<le> W)
     \<and> (\<forall>i < (H div s) * s. \<forall>j < (W div s) * s.
           \<exists>!k. k < (H div s) * (W div s) \<and> in_tile s (W div s) k i j)"
proof -
  let ?tiles = "concat (map (\<lambda>k.
            [(target_folder @ ''/'' @ ct @ ''/'' @ split_dir @ ''/images/''
                @ tile_name item (int (tile_row s (W div s) k)) (int (tile_col s (W div s) k)),
              spec_tile img s (tile_row s (W div s) k) (tile_col s (W div s) k)),
             (target_folder @ ''/'' @ ct @ ''/'' @ split_dir @ ''/masks/''
                @ tile_name item (int (tile_row s (W div s) k)) (int (tile_col s (W div s) k)),
              spec_tile msk s (tile_row s (W div s) k) (tile_col s (W div s) k))])
          [0..<(H div s) * (W div s)])"
  have run: "patchify_image target_folder ct split_dir item (int s) img msk = Inr ?tiles"
    unfolding tile_row_def tile_col_def by (rule patchify_image_grid [OF assms])
  have len: "length ?tiles = 2 * ((H div s) * (W div s))"
    by (simp add: length_concat comp_def sum_list_triv)
  have shapes: "\<forall>t \<in> set ?tiles. has_shape (snd t) s s"
    by (auto simp: has_shape_spec_tile)
  have inside: "\<forall>k < (H div s) * (W div s).
           tile_row s (W div s) k + s \<le> H \<and> tile_col s (W div s) k + s \<le> W"
    by (simp add: tile_inside)
  have cover: "\<forall>i < (H div s) * s. \<forall>j < (W div s) * s.
           \<exists>!k. k < (H div s) * (W div s) \<and> in_tile s (W div s) k i j"
    using assms(1) by (simp add: in_tile_unique)
  show ?thesis
    using run len shapes inside cover grid_offsets [of s "W div s" "H div s"] by blast
qed


theorem grid_tiler_emits_full_tiles_witness:
  "0 < (2::nat) \<and> has_shape example_image 3 5 \<and> has_shape example_mask 3 5 \<and>
   (\<exists>tiles. patchify_image ''out'' ''breast'' ''train'' ''TCGA'' (int 2) example_image example_mask = Inr tiles
      \<and> length tiles = 2 * ((3 div 2) * (5 div 2))
      \<and> (\<forall>t \<in> set tiles. has_shape (snd t) 2 2))"
proof -
  have s: "0 < (2::nat)"
    by simp
  have h: "has_shape example_image 3 5" "has_shape example_mask 3 5"
    by (simp_all add: has_shape_def example_image_def example_mask_def)
  show ?thesis
    using grid_tiler_emits_full_tiles [OF s h, of "''out''" "''breast''" "''train''" "''TCGA''"] s h
    by blast
qed


subsection \<open>The partitioner takes the first tiles as evidence\<close>

text \<open>
  Claim C1. For an image and a mask of \<open>H\<close> rows and \<open>W\<close> columns, a tile size \<open>s > 0\<close> and a
  percentage \<open>p\<close> among 5, 20 and 50, the partitioner returns after visiting
  \<open>total = (H div s) * (W div s)\<close> tiles. Its writes are, in this order: the evidence writes
  of the tiles \<open>0, ..., target - 1\<close> of the row-major enumeration, the held-out writes of the
  tiles \<open>target, ..., total - 1\<close>, and the two effective canvases, where
  \<open>target = ceil(p * total / 100)\<close> is at most \<open>total\<close>. The witness is the specification's
  example: 1000 by 1000 pixels, tiles of 200 and 20 percent give 25 tiles, of which tiles 0
  to 4 are evidence and tiles 5 to 24 are held out.
\<close>

theorem partition_first_target_tiles_are_evidence:
  assumes "0 < s" and "has_shape img H W" and "has_shape msk H W"
    and "percentage j \<in> {5, 20, 50}"
  shows "\<exists>st. intraimage_image (int s) j img msk = Inr st
     \<and> curr_count st = int (spec_total H W s)
     \<and> spec_target (percentage j) (spec_total H W s) \<le> spec_total H W s
     \<and> written st =
          concat (map (\<lambda>k. spec_tile_writes (int s) j img msk s True
                     (tile_row s (W div s) k) (tile_col s (W div s) k))
                  [0..<spec_target (percentage j) (spec_total H W s)])
          @ concat (map (\<lambda>k. spec_tile_writes (int s) j img msk s False
                     (tile_row s (W div s) k) (tile_col s (W div s) k))
                  [spec_target (percentage j) (spec_total H W s)..<spec_total H W s])
          @ [(test_tree (int s) j @ ''/'' @ test_item j @ ''_effective_image.png'', image_effective st),
             (test_tree (int s) j @ ''/'' @ test_item j @ ''_effective_mask.png'', mask_effective st)]"
proof -
  have "0 \<le> percentage j" "percentage j \<le> 100"
    using assms(4) by auto
  then have le: "spec_target (percentage j) (spec_total H W s) \<le> spec_total H W s"
    by (rule target_le_total)
  note split = concat_map_split [OF le, of "\<lambda>b k. spec_tile_writes (int s) j img msk s b
                     (tile_row s (W div s) k) (tile_col s (W div s) k)"]
  show ?thesis
    using le
    by (simp add: intraimage_image_spec [OF assms(1-3)] target_count_spec split
          flip: spec_total_def del: of_nat_mult)
qed

theorem partition_first_target_tiles_are_evidence_witness:
  "0 < (200::nat) \<and> has_shape example_1000 1000 1000 \<and> percentage example_job \<in> {5, 20, 50}
   \<and> (\<exists>st. intraimage_image (int 200) example_job example_1000 example_1000 = Inr st
        \<and> curr_count st = 25
        \<and> written st =
             concat (map (\<lambda>k. spec_tile_writes (int 200) example_job example_1000 example_1000 200 True
                        (tile_row 200 5 k) (tile_col 200 5 k)) [0..<5])
             @ concat (map (\<lambda>k. spec_tile_writes (int 200) example_job example_1000 example_1000 200 False
                        (tile_row 200 5 k) (tile_col 200 5 k)) [5..<25])
             @ [(test_tree (int 200) example_job @ ''/'' @ test_item example_job @ ''_effective_image.png'',
                   image_effective st),
                (test_tree (int 200) example_job @ ''/'' @ test_item example_job @ ''_effective_mask.png'',
                   mask_effective st)])"
proof -
  have s: "0 < (200::nat)"
    by simp
  have h: "has_shape example_1000 1000 1000"
    by (simp add: has_shape_def example_1000_def)
  have p: "percentage example_job \<in> {5, 20, 50}"
    by (simp add: example_job_def)
  have vals: "percentage example_job = 20" "spec_total 1000 1000 200 = 25" "spec_target 20 25 = 5"
    "(1000::nat) div 200 = 5" "int 25 = 25"
    by (simp_all add: example_job_def spec_total_def spec_target_def)
  show ?thesis
    using partition_first_target_tiles_are_evidence [OF s h h p] s h p
    unfolding vals by blast
qed

subsection \<open>The effective canvases show the held-out tiles only\<close>

text \<open>
  Claim C3. After a run of the partitioner on one image, the effective image and the
  effective mask have the shape of their sources, equal the source at every pixel that a
  held-out tile covers, and are zero at every other pixel: at the pixels of the evidence
  tiles and at the pixels outside the \<open>s\<close>-aligned grid. They are the last two arrays
  written.
\<close>

theorem effective_canvas_shows_only_heldout_tiles:
  assumes "0 < s" and "has_shape img H W" and "has_shape msk H W"
  shows "\<exists>st. intraimage_image (int s) j img msk = Inr st
     \<and> image_effective st = spec_effective img s (W div s) (spec_total H W s)
          (spec_target (percentage j) (spec_total H W s))
     \<and> mask_effective st = spec_effective msk s (W div s) (spec_total H W s)
          (spec_target (percentage j) (spec_total H W s))
     \<and> has_shape (image_effective st) H W \<and> has_shape (mask_effective st) H W
     \<and> (\<forall>r < H. \<forall>c < W.
           image_effective st ! r ! c =
             (if \<exists>k. spec_target (percentage j) (spec_total H W s) \<le> k \<and> k < spec_total H W s
                    \<and> in_tile s (W div s) k r c
              then img ! r ! c else replicate (length (img ! r ! c)) 0)
         \<and> mask_effective st ! r ! c =
             (if \<exists>k. spec_target (percentage j) (spec_total H W s) \<le> k \<and> k < spec_total H W s
                    \<and> in_tile s (W div s) k r c
              then msk ! r ! c else replicate (length (msk ! r ! c)) 0))
     \<and> (\<exists>tiles. written st = tiles @
           [(test_tree (int s) j @ ''/'' @ test_item j @ ''_effective_image.png'', image_effective st),
            (test_tree (int s) j @ ''/'' @ test_item j @ ''_effective_mask.png'', mask_effective st)])"
proof -
  have pix: "spec_effective a s (W div s) n t ! r ! c =
        (if \<exists>k. t \<le> k \<and> k < n \<and> in_tile s (W div s) k r c
         then a ! r ! c else replicate (length (a ! r ! c)) 0)"
    if "has_shape a H W" "r < H" "c < W" for a :: ndarray and n t r c
  proof -
    have "(\<exists>k \<in> {t..<n}. in_tile s (W div s) k r c) \<longleftrightarrow> (\<exists>k. t \<le> k \<and> k < n \<and> in_tile s (W div s) k r c)"
      by auto
    then show ?thesis
      using that by (simp only: nth_spec_effective map_replicate_const)
  qed
  show ?thesis
    using assms(2,3)
    by (simp add: intraimage_image_spec [OF assms] target_count_spec has_shape_spec_effective pix
          flip: spec_total_def del: of_nat_mult)
qed

theorem effective_canvas_shows_only_heldout_tiles_witness:
  "0 < (2::nat) \<and> has_shape example_image 3 5 \<and> has_shape example_mask 3 5
   \<and> (\<exists>st. intraimage_image (int 2) example_job example_image example_mask = Inr st
        \<and> image_effective st =
             [[[0, 0, 0], [0, 0, 0], [7, 8, 9], [10, 11, 12], [0, 0, 0]],
              [[0, 0, 0], [0, 0, 0], [22, 23, 24], [25, 26, 27], [0, 0, 0]],
              [[0, 0, 0], [0, 0, 0], [0, 0, 0], [0, 0, 0], [0, 0, 0]]]
        \<and> mask_effective st =
             [[[0, 0, 0], [0, 0, 0], [255, 255, 255], [0, 0, 0], [0, 0, 0]],
              [[0, 0, 0], [0, 0, 0], [0, 0, 0], [0, 0, 0], [0, 0, 0]],
              [[0, 0, 0], [0, 0, 0], [0, 0, 0], [0, 0, 0], [0, 0, 0]]])"
proof -
  have s: "0 < (2::nat)"
    by simp
  have h: "has_shape example_image 3 5" "has_shape example_mask 3 5"
    by (simp_all add: has_shape_def example_image_def example_mask_def)
  have vals: "percentage example_job = 20" "spec_total 3 5 2 = 2" "spec_target 20 2 = 1"
    "(5::nat) div 2 = 2"
    by (simp_all add: example_job_def spec_total_def spec_target_def)
  have canvases:
    "spec_effective example_image 2 2 2 1 =
             [[[0, 0, 0], [0, 0, 0], [7, 8, 9], [10, 11, 12], [0, 0, 0]],
              [[0, 0, 0], [0, 0, 0], [22, 23, 24], [25, 26, 27], [0, 0, 0]],
              [[0, 0, 0], [0, 0, 0], [0, 0, 0], [0, 0, 0], [0, 0, 0]]]"
    "spec_effective example_mask 2 2 2 1 =
             [[[0, 0, 0], [0, 0, 0], [255, 255, 255], [0, 0, 0], [0, 0, 0]],
              [[0, 0, 0], [0, 0, 0], [0, 0, 0], [0, 0, 0], [0, 0, 0]],
              [[0, 0, 0], [0, 0, 0], [0, 0, 0], [0, 0, 0], [0, 0, 0]]]"
    by code_simp+
  show ?thesis
    using effective_canvas_shows_only_heldout_tiles [OF s h, of example_job] s h
    unfolding vals canvases by blast
qed

subsection \<open>Evidence tiles are written twice, held-out tiles once\<close>

text \<open>
  Claim C4. The writes of a run of the partitioner on one image are, tile after tile in
  row-major order: for an evidence tile its image block and its mask block under the
  evidence tree \<^verbatim>\<open>img<k>_train\<close>, then an all-zero image tile and an all-zero mask tile of
  the same shape under the held-out tree \<^verbatim>\<open>img<k>_test\<close>, at the same relative paths; for a
  held-out tile its image block and its mask block under the held-out tree, and nothing
  else. The two effective canvases follow. No two writes of the run go to the same path,
  so no file of a tile is written a second time.
\<close>

theorem evidence_tiles_written_twice_heldout_once:
  assumes "0 < s" and "has_shape img H W" and "has_shape msk H W"
  shows "\<exists>st. intraimage_image (int s) j img msk = Inr st
     \<and> written st =
         concat (map (\<lambda>k.
           if k < spec_target (percentage j) (spec_total H W s) then
             [(train_tree (int s) j @ ''/images/''
                 @ tile_name (test_item j) (int (tile_row s (W div s) k)) (int (tile_col s (W div s) k)),
               spec_tile img s (tile_row s (W div s) k) (tile_col s (W div s) k)),
              (train_tree (int s) j @ ''/masks/''
                 @ tile_name (test_item j) (int (tile_row s (W div s) k)) (int (tile_col s (W div s) k)),
               spec_tile msk s (tile_row s (W div s) k) (tile_col s (W div s) k)),
              (test_tree (int s) j @ ''/images/''
                 @ tile_name (test_item j) (int (tile_row s (W div s) k)) (int (tile_col s (W div s) k)),
               zeros_like (spec_tile img s (tile_row s (W div s) k) (tile_col s (W div s) k))),
              (test_tree (int s) j @ ''/masks/''
                 @ tile_name (test_item j) (int (tile_row s (W div s) k)) (int (tile_col s (W div s) k)),
               zeros_like (spec_tile msk s (tile_row s (W div s) k) (tile_col s (W div s) k)))]
           else
             [(test_tree (int s) j @ ''/images/''
                 @ tile_name (test_item j) (int (tile_row s (W div s) k)) (int (tile_col s (W div s) k)),
               spec_tile img s (tile_row s (W div s) k) (tile_col s (W div s) k)),
              (test_tree (int s) j @ ''/masks/''
                 @ tile_name (test_item j) (int (tile_row s (W div s) k)) (int (tile_col s (W div s) k)),
               spec_tile msk s (tile_row s (W div s) k) (tile_col s (W div s) k))])
           [0..<spec_total H W s])
         @ [(test_tree (int s) j @ ''/'' @ test_item j @ ''_effective_image.png'', image_effective st),
            (test_tree (int s) j @ ''/'' @ test_item j @ ''_effective_mask.png'', mask_effective st)]
     \<and> (\<forall>a h w. has_shape (zeros_like (spec_tile a s h w)) s s
           \<and> (\<forall>r < s. \<forall>c < s.
                 zeros_like (spec_tile a s h w) ! r ! c = replicate (length (a ! (h + r) ! (w + c))) 0
               \<and> spec_tile a s h w ! r ! c = a ! (h + r) ! (w + c)))
     \<and> distinct (map fst (written st))"
proof -
  have zero: "has_shape (zeros_like (spec_tile a s h w)) s s
           \<and> (\<forall>r < s. \<forall>c < s.
                 zeros_like (spec_tile a s h w) ! r ! c = replicate (length (a ! (h + r) ! (w + c))) 0
               \<and> spec_tile a s h w ! r ! c = a ! (h + r) ! (w + c))" for a h w
    by (simp add: has_shape_zeros_like has_shape_spec_tile nth_zeros_like nth_spec_tile
          has_shape_length [OF has_shape_spec_tile] has_shape_nth [OF has_shape_spec_tile]
          map_replicate_const)
  show ?thesis
    using zero written_paths_distinct [OF assms(1), of "int s" j img msk]
    by (simp add: intraimage_image_spec [OF assms] target_count_spec spec_tile_writes_def
          flip: spec_total_def del: of_nat_mult cong: if_cong)
qed

theorem evidence_tiles_written_twice_heldout_once_witness:
  "0 < (2::nat) \<and> has_shape example_image 3 5 \<and> has_shape example_mask 3 5
   \<and> (\<exists>st. intraimage_image (int 2) example_job example_image example_mask = Inr st
        \<and> map snd (take 6 (written st)) =
            [[[[1, 2, 3], [4, 5, 6]], [[16, 17, 18], [19, 20, 21]]],
             [[[0, 0, 0], [255, 255, 255]], [[0, 0, 0], [255, 255, 255]]],
             [[[0, 0, 0], [0, 0, 0]], [[0, 0, 0], [0, 0, 0]]],
             [[[0, 0, 0], [0, 0, 0]], [[0, 0, 0], [0, 0, 0]]],
             [[[7, 8, 9], [10, 11, 12]], [[22, 23, 24], [25, 26, 27]]],
             [[[255, 255, 255], [0, 0, 0]], [[0, 0, 0], [0, 0, 0]]]]
        \<and> map fst (take 6 (written st)) =
            [''../../external_data/MoNuSeg/MoNuSegByCancer_intraimage20pct_2x2//breast/img0_train/images/TCGA-AC-A2FO-01A-01-TS1_H0W0.png'',
             ''../../external_data/MoNuSeg/MoNuSegByCancer_intraimage20pct_2x2//breast/img0_train/masks/TCGA-AC-A2FO-01A-01-TS1_H0W0.png'',
             ''../../external_data/MoNuSeg/MoNuSegByCancer_intraimage20pct_2x2//breast/img0_test/images/TCGA-AC-A2FO-01A-01-TS1_H0W0.png'',
             ''../../external_data/MoNuSeg/MoNuSegByCancer_intraimage20pct_2x2//breast/img0_test/masks/TCGA-AC-A2FO-01A-01-TS1_H0W0.png'',
             ''../../external_data/MoNuSeg/MoNuSegByCancer_intraimage20pct_2x2//breast/img0_test/images/TCGA-AC-A2FO-01A-01-TS1_H0W2.png'',
             ''../../external_data/MoNuSeg/MoNuSegByCancer_intraimage20pct_2x2//breast/img0_test/masks/TCGA-AC-A2FO-01A-01-TS1_H0W2.png'']
        \<and> length (written st) = 8)"
proof -
  have s: "0 < (2::nat)"
    by simp
  have h: "has_shape example_image 3 5" "has_shape example_mask 3 5"
    by (simp_all add: has_shape_def example_image_def example_mask_def)
  from evidence_tiles_written_twice_heldout_once [OF s h, of example_job]
  obtain st where run: "intraimage_image (int 2) example_job example_image example_mask = Inr st"
    and w: "written st =
         concat (map (\<lambda>k.
           if k < spec_target (percentage example_job) (spec_total 3 5 2) then
             [(train_tree (int 2) example_job @ ''/images/''
                 @ tile_name (test_item example_job) (int (tile_row 2 (5 div 2) k)) (int (tile_col 2 (5 div 2) k)),
               spec_tile example_image 2 (tile_row 2 (5 div 2) k) (tile_col 2 (5 div 2) k)),
              (train_tree (int 2) example_job @ ''/masks/''
                 @ tile_name (test_item example_job) (int (tile_row 2 (5 div 2) k)) (int (tile_col 2 (5 div 2) k)),
               spec_tile example_mask 2 (tile_row 2 (5 div 2) k) (tile_col 2 (5 div 2) k)),
              (test_tree (int 2) example_job @ ''/images/''
                 @ tile_name (test_item example_job) (int (tile_row 2 (5 div 2) k)) (int (tile_col 2 (5 div 2) k)),
               zeros_like (spec_tile example_image 2 (tile_row 2 (5 div 2) k) (tile_col 2 (5 div 2) k))),
              (test_tree (int 2) example_job @ ''/masks/''
                 @ tile_name (test_item example_job) (int (tile_row 2 (5 div 2) k)) (int (tile_col 2 (5 div 2) k)),
               zeros_like (spec_tile example_mask 2 (tile_row 2 (5 div 2) k) (tile_col 2 (5 div 2) k)))]
           else
             [(test_tree (int 2) example_job @ ''/images/''
                 @ tile_name (test_item example_job) (int (tile_row 2 (5 div 2) k)) (int (tile_col 2 (5 div 2) k)),
               spec_tile example_image 2 (tile_row 2 (5 div 2) k) (tile_col 2 (5 div 2) k)),
              (test_tree (int 2) example_job @ ''/masks/''
                 @ tile_name (test_item example_job) (int (tile_row 2 (5 div 2) k)) (int (tile_col 2 (5 div 2) k)),
               spec_tile example_mask 2 (tile_row 2 (5 div 2) k) (tile_col 2 (5 div 2) k))])
           [0..<spec_total 3 5 2])
         @ [(test_tree (int 2) example_job @ ''/'' @ test_item example_job @ ''_effective_image.png'', image_effective st),
            (test_tree (int 2) example_job @ ''/'' @ test_item example_job @ ''_effective_mask.png'', mask_effective st)]"
    by blast
  have vals: "percentage example_job = 20" "spec_total 3 5 2 = 2" "spec_target 20 2 = 1"
    "(5::nat) div 2 = 2" "[0..<2] = [0, 1]"
    by (simp_all add: example_job_def spec_total_def spec_target_def upt_rec)
  have tiles:
    "spec_tile example_image 2 0 0 = [[[1, 2, 3], [4, 5, 6]], [[16, 17, 18], [19, 20, 21]]]"
    "spec_tile example_mask 2 0 0 = [[[0, 0, 0], [255, 255, 255]], [[0, 0, 0], [255, 255, 255]]]"
    "zeros_like (spec_tile example_image 2 0 0) = [[[0, 0, 0], [0, 0, 0]], [[0, 0, 0], [0, 0, 0]]]"
    "zeros_like (spec_tile example_mask 2 0 0) = [[[0, 0, 0], [0, 0, 0]], [[0, 0, 0], [0, 0, 0]]]"
    "spec_tile example_image 2 0 2 = [[[7, 8, 9], [10, 11, 12]], [[22, 23, 24], [25, 26, 27]]]"
    "spec_tile example_mask 2 0 2 = [[[255, 255, 255], [0, 0, 0]], [[0, 0, 0], [0, 0, 0]]]"
    by code_simp+
  have offs: "tile_row 2 2 0 = 0" "tile_col 2 2 0 = 0" "tile_row 2 2 (Suc 0) = 0" "tile_col 2 2 (Suc 0) = 2"
    by (simp_all add: tile_row_def tile_col_def)
  have paths:
    "train_tree 2 example_job = ''../../external_data/MoNuSeg/MoNuSegByCancer_intraimage20pct_2x2//breast/img0_train''"
    "test_tree 2 example_job = ''../../external_data/MoNuSeg/MoNuSegByCancer_intraimage20pct_2x2//breast/img0_test''"
    "tile_name (test_item example_job) 0 0 = ''TCGA-AC-A2FO-01A-01-TS1_H0W0.png''"
    "tile_name (test_item example_job) 0 2 = ''TCGA-AC-A2FO-01A-01-TS1_H0W2.png''"
    by code_simp+
  have c1: "map snd (take 6 (written st)) =
            [[[[1, 2, 3], [4, 5, 6]], [[16, 17, 18], [19, 20, 21]]],
             [[[0, 0, 0], [255, 255, 255]], [[0, 0, 0], [255, 255, 255]]],
             [[[0, 0, 0], [0, 0, 0]], [[0, 0, 0], [0, 0, 0]]],
             [[[0, 0, 0], [0, 0, 0]], [[0, 0, 0], [0, 0, 0]]],
             [[[7, 8, 9], [10, 11, 12]], [[22, 23, 24], [25, 26, 27]]],
             [[[255, 255, 255], [0, 0, 0]], [[0, 0, 0], [0, 0, 0]]]]"
    unfolding w vals by (simp add: offs tiles zeros_like_def)
  have c2: "map fst (take 6 (written st)) =
            [''../../external_data/MoNuSeg/MoNuSegByCancer_intraimage20pct_2x2//breast/img0_train/images/TCGA-AC-A2FO-01A-01-TS1_H0W0.png'',
             ''../../external_data/MoNuSeg/MoNuSegByCancer_intraimage20pct_2x2//breast/img0_train/masks/TCGA-AC-A2FO-01A-01-TS1_H0W0.png'',
             ''../../external_data/MoNuSeg/MoNuSegByCancer_intraimage20pct_2x2//breast/img0_test/images/TCGA-AC-A2FO-01A-01-TS1_H0W0.png'',
             ''../../external_data/MoNuSeg/MoNuSegByCancer_intraimage20pct_2x2//breast/img0_test/masks/TCGA-AC-A2FO-01A-01-TS1_H0W0.png'',
             ''../../external_data/MoNuSeg/MoNuSegByCancer_intraimage20pct_2x2//breast/img0_test/images/TCGA-AC-A2FO-01A-01-TS1_H0W2.png'',
             ''../../external_data/MoNuSeg/MoNuSegByCancer_intraimage20pct_2x2//breast/img0_test/masks/TCGA-AC-A2FO-01A-01-TS1_H0W2.png'']"
    unfolding w vals by (simp add: offs paths)
  have c3: "length (written st) = 8"
    unfolding w vals by simp
  show ?thesis
    by (intro conjI exI [of _ st]) (rule s h run c1 c2 c3)+
qed

subsection \<open>The parser drops exactly the degenerate regions\<close>

text \<open>
  Claim C6. The parser returns the vertex lists and the identifiers of exactly the regions
  whose declared area is not below 1.0 and that have at least 3 vertices, in document
  order, so the two sequences are parallel; the counter of invalid regions ends at the
  number of the other regions. A degenerate region anywhere in the document adds one to
  the counter and changes nothing else: the regions before and after it are processed as
  without it.
\<close>

theorem parser_excludes_exactly_degenerate_regions:
  "load_MoNuSeg_annotation regions =
     (map (\<lambda>r. map (\<lambda>v. (attr_Y v, attr_X v)) (vertices r))
        (filter (\<lambda>r. \<not> (attr_Area r < 1 \<or> length (vertices r) < 3)) regions),
      map attr_Id (filter (\<lambda>r. \<not> (attr_Area r < 1 \<or> length (vertices r) < 3)) regions))
   \<and> cnt_invalid (load_regions regions \<lparr>verts_list = [], region_id_list = [], cnt_invalid = 0\<rparr>)
       = int (length (filter (\<lambda>r. attr_Area r < 1 \<or> length (vertices r) < 3) regions))
   \<and> length (fst (load_MoNuSeg_annotation regions)) = length (snd (load_MoNuSeg_annotation regions))
   \<and> (\<forall>before r after. attr_Area r < 1 \<or> length (vertices r) < 3 \<longrightarrow>
         load_MoNuSeg_annotation (before @ r # after) = load_MoNuSeg_annotation (before @ after)
       \<and> cnt_invalid (load_regions (before @ r # after) \<lparr>verts_list = [], region_id_list = [], cnt_invalid = 0\<rparr>)
           = cnt_invalid (load_regions (before @ after) \<lparr>verts_list = [], region_id_list = [], cnt_invalid = 0\<rparr>) + 1)"
  by (simp add: load_MoNuSeg_annotation_filter load_regions_filter)

theorem parser_excludes_exactly_degenerate_regions_witness:
  "(attr_Area collinear_region_area0 < 1 \<or> length (vertices collinear_region_area0) < 3)
   \<and> load_MoNuSeg_annotation ([triangle_region] @ collinear_region_area0 # [triangle_region])
       = load_MoNuSeg_annotation ([triangle_region] @ [triangle_region])
   \<and> load_MoNuSeg_annotation [triangle_region, collinear_region_area0, triangle_region]
       = ([[(0, 0), (0, 2), (2, 0)], [(0, 0), (0, 2), (2, 0)]], [9, 9])"
proof -
  have deg: "attr_Area collinear_region_area0 < 1 \<or> length (vertices collinear_region_area0) < 3"
    by (simp add: collinear_region_area0_def)
  have skip: "load_MoNuSeg_annotation ([triangle_region] @ collinear_region_area0 # [triangle_region])
       = load_MoNuSeg_annotation ([triangle_region] @ [triangle_region])"
    using parser_excludes_exactly_degenerate_regions [of "[triangle_region] @ [triangle_region]"] deg
    by blast
  have out: "load_MoNuSeg_annotation [triangle_region, collinear_region_area0, triangle_region]
       = ([[(0, 0), (0, 2), (2, 0)], [(0, 0), (0, 2), (2, 0)]], [9, 9])"
    using parser_excludes_exactly_degenerate_regions [of "[triangle_region, collinear_region_area0, triangle_region]"]
    by (simp add: triangle_region_def collinear_region_area0_def)
  show ?thesis
    using deg skip out by blast
qed

subsection \<open>Three collinear vertices and the area check\<close>

text \<open>
  Claim C7 says that a region with exactly 3 collinear vertices is rejected by the area
  check whatever its \<^verbatim>\<open>Area\<close> attribute is. The area check reads the attribute only: a
  region of three collinear vertices that declares the area 5.0 passes both checks and is
  returned for rasterization.
\<close>

theorem collinear_region_with_declared_area_survives:
  "length (vertices collinear_region_area5) = 3
   \<and> enclosed_area3 (vertices collinear_region_area5) = 0
   \<and> collinear3 (vertices collinear_region_area5)
   \<and> load_MoNuSeg_annotation [collinear_region_area5] = ([[(0, 0), (1, 1), (2, 2)]], [7])"
  by (simp add: collinear_region_area5_def collinear_vertices_def enclosed_area3_def collinear3_def
        load_MoNuSeg_annotation_def)

text \<open>
  Claim C7 as amended: a region with exactly 3 collinear vertices is rejected by the area
  check if and only if its declared \<^verbatim>\<open>Area\<close> attribute is below 1.0, as it is when the
  attribute is the area the vertices enclose, which is zero; then the region does not reach
  the rasterizer. With a declared area of 1.0 or more the region is returned, between the
  results of the regions before and after it.
\<close>

theorem collinear_region_rejected_iff_declared_area_below_one:
  assumes "collinear3 (vertices r)"
  shows "load_MoNuSeg_annotation (before @ r # after) =
           (if attr_Area r < 1 then load_MoNuSeg_annotation (before @ after)
            else (fst (load_MoNuSeg_annotation before)
                    @ [map (\<lambda>v. (attr_Y v, attr_X v)) (vertices r)]
                    @ fst (load_MoNuSeg_annotation after),
                  snd (load_MoNuSeg_annotation before) @ [attr_Id r] @ snd (load_MoNuSeg_annotation after)))
       \<and> (attr_Area r = enclosed_area3 (vertices r) \<longrightarrow>
           load_MoNuSeg_annotation (before @ r # after) = load_MoNuSeg_annotation (before @ after))"
proof -
  have three: "length (vertices r) = 3" and zero: "enclosed_area3 (vertices r) = 0"
    using assms by (simp_all add: collinear3_def)
  then show ?thesis
    by (simp add: load_MoNuSeg_annotation_filter)
qed

theorem collinear_region_rejected_iff_declared_area_below_one_witness:
  "collinear3 (vertices collinear_region_area0)
   \<and> attr_Area collinear_region_area0 = enclosed_area3 (vertices collinear_region_area0)
   \<and> load_MoNuSeg_annotation ([triangle_region] @ collinear_region_area0 # [triangle_region])
       = load_MoNuSeg_annotation ([triangle_region] @ [triangle_region])"
proof -
  have col: "collinear3 (vertices collinear_region_area0)"
    by (simp add: collinear3_def enclosed_area3_def collinear_region_area0_def collinear_vertices_def)
  have area: "attr_Area collinear_region_area0 = enclosed_area3 (vertices collinear_region_area0)"
    by (simp add: enclosed_area3_def collinear_region_area0_def collinear_vertices_def)
  show ?thesis
    using collinear_region_rejected_iff_declared_area_below_one
            [OF col, of "[triangle_region]" "[triangle_region]"] col area
    by blast
qed

subsection \<open>Detected points outside the mask are skipped\<close>

text \<open>
  Claim C9. For every list of detected points and every mask of \<open>H\<close> rows and \<open>W\<close> columns,
  \<^verbatim>\<open>detection_eval\<close> returns: no index it uses is out of bounds. Its result is the
  result on the points within the bounds alone, so a point with a negative row or column,
  a row of \<open>H\<close> or more or a column of \<open>W\<close> or more contributes nothing to the true positives
  and the false negatives; and the pixels it marks are exactly the truncated coordinates
  of the points within the bounds.
\<close>

theorem detection_eval_skips_points_outside_mask:
  assumes "has_shape msk H W"
  shows "(\<exists>recall TP FN. detection_eval nuclei_list msk total_pos = Inr (recall, TP, FN))
     \<and> detection_eval nuclei_list msk total_pos
         = detection_eval (filter (in_bounds H W) nuclei_list) msk total_pos
     \<and> (\<exists>nuclei_mask.
           mark_nuclei nuclei_list (map (map (\<lambda>v. (if v > 0 then 1 else 0) * (1.0::real))) msk)
             (map (map (\<lambda>_. 0)) (map (map (\<lambda>v. (if v > 0 then 1 else 0) * (1.0::real))) msk))
             = Inr nuclei_mask
         \<and> has_shape nuclei_mask H W
         \<and> (\<forall>r < H. \<forall>c < W. nuclei_mask ! r ! c =
               (if \<exists>n \<in> set nuclei_list.
                     in_bounds H W n \<and> nat (py_int (fst n)) = r \<and> nat (py_int (snd n)) = c
                then 1 else 0)))"
proof -
  let ?msk = "map (map (\<lambda>v::8 word. (if v > 0 then 1 else 0) * (1.0::real))) msk"
  let ?zero = "map (map (\<lambda>_. 0::real)) ?msk"
  have m: "has_shape ?msk H W" and z: "has_shape ?zero H W"
    using assms by (auto simp: has_shape_def)
  from mark_nuclei_spec [OF m z, of nuclei_list] obtain nm where
    run: "mark_nuclei nuclei_list ?msk ?zero = Inr nm" and sh: "has_shape nm H W"
    and fil: "mark_nuclei (filter (in_bounds H W) nuclei_list) ?msk ?zero = Inr nm"
    and pix: "\<forall>r < H. \<forall>c < W. nm ! r ! c =
           (if \<exists>n \<in> set nuclei_list. in_bounds H W n \<and> nat (py_int (fst n)) = r \<and> nat (py_int (snd n)) = c
            then 1 else ?zero ! r ! c)"
    by blast
  have zero: "?zero ! r ! c = 0" if "r < H" "c < W" for r c
    using that assms by (simp add: has_shape_length has_shape_nth)
  have ret: "\<exists>recall TP FN. detection_eval nuclei_list msk total_pos = Inr (recall, TP, FN)"
    unfolding detection_eval_def Let_def run by simp
  have same: "detection_eval nuclei_list msk total_pos
         = detection_eval (filter (in_bounds H W) nuclei_list) msk total_pos"
    unfolding detection_eval_def Let_def run fil by (rule refl)
  have marks: "\<forall>r < H. \<forall>c < W. nm ! r ! c =
           (if \<exists>n \<in> set nuclei_list. in_bounds H W n \<and> nat (py_int (fst n)) = r \<and> nat (py_int (snd n)) = c
            then 1 else 0)"
  proof (intro allI impI)
    fix r c assume rc: "r < H" "c < W"
    from pix rc have "nm ! r ! c =
           (if \<exists>n \<in> set nuclei_list. in_bounds H W n \<and> nat (py_int (fst n)) = r \<and> nat (py_int (snd n)) = c
            then 1 else ?zero ! r ! c)"
      by blast
    then show "nm ! r ! c =
           (if \<exists>n \<in> set nuclei_list. in_bounds H W n \<and> nat (py_int (fst n)) = r \<and> nat (py_int (snd n)) = c
            then 1 else 0)"
      unfolding zero [OF rc] .
  qed
  show ?thesis
    using ret same run sh marks by blast
qed

theorem detection_eval_skips_points_outside_mask_witness:
  "has_shape example_gray_mask 2 3
   \<and> filter (in_bounds 2 3) example_points = [(0.5, 1.25), (1.5, 1)]
   \<and> detection_eval example_points example_gray_mask 3 = Inr (Finite (1 / 3), 1, 2)"
proof -
  have h: "has_shape example_gray_mask 2 3"
    by (simp add: has_shape_def example_gray_mask_def)
  have f: "filter (in_bounds 2 3) example_points = [(0.5, 1.25), (1.5, 1)]"
    by (simp add: in_bounds_def example_points_def)
  have e: "detection_eval [(0.5, 1.25), (1.5, 1)] example_gray_mask 3 = Inr (Finite (1 / 3), 1, 2)"
    by code_simp
  have "detection_eval example_points example_gray_mask 3
          = detection_eval (filter (in_bounds 2 3) example_points) example_gray_mask 3"
    using detection_eval_skips_points_outside_mask [OF h, of example_points 3] by blast
  then show ?thesis
    using h f e by simp
qed

subsection \<open>The rasterizer returns a binary union mask and one centroid per polygon\<close>

text \<open>
  Claim C5 says that for every list of surviving polygons and every canvas shape the
  rasterizer returns a mask and one centroid pair per polygon. The function converts each
  centroid with \<^verbatim>\<open>int\<close>, and the centroid of a raster without pixels is \<^verbatim>\<open>nan\<close>. The sliver
  below encloses the area 1.0 that it declares and has three vertices, so the parser keeps
  it; no pixel of the 3 by 5 canvas lies in its bounding box, let alone inside it; and the
  rasterizer raises \<^verbatim>\<open>ValueError\<close> instead of returning.
\<close>

theorem rasterizer_raises_on_polygon_without_pixel:
  "enclosed_area3 (vertices sliver_region) = 1
   \<and> load_MoNuSeg_annotation [sliver_region] = ([[(0.25, 0), (0.75, 0), (0.5, 4)]], [3])
   \<and> list_all (\<lambda>row. list_all (\<lambda>b. \<not> b) row)
        (box_polygon2mask (shape0 example_image, shape1 example_image) [(0.25, 0), (0.75, 0), (0.5, 4)])
   \<and> annotation_to_label box_polygon2mask mean_centroid (fst (load_MoNuSeg_annotation [sliver_region]))
        example_image
       = Inl (ValueError ''cannot convert float NaN to integer'')"
proof -
  have area: "enclosed_area3 (vertices sliver_region) = 1"
    by (simp add: enclosed_area3_def sliver_region_def)
  have kept: "load_MoNuSeg_annotation [sliver_region] = ([[(0.25, 0), (0.75, 0), (0.5, 4)]], [3])"
    by (simp add: load_MoNuSeg_annotation_def sliver_region_def)
  have empty: "list_all (\<lambda>row. list_all (\<lambda>b. \<not> b) row)
        (box_polygon2mask (shape0 example_image, shape1 example_image) [(0.25, 0), (0.75, 0), (0.5, 4)])"
    by code_simp
  have "annotation_to_label box_polygon2mask mean_centroid [[(0.25, 0), (0.75, 0), (0.5, 4)]] example_image
       = Inl (ValueError ''cannot convert float NaN to integer'')"
    by code_simp
  then show ?thesis
    using area empty by (simp add: kept)
qed

text \<open>
  Claim C5 as amended. Let the raster primitive return arrays of the canvas shape. The
  rasterizer returns if and only if the centroid of every polygon's raster is a pair of
  finite numbers, as it is when every raster holds a pixel; otherwise \<^verbatim>\<open>int\<close> raises. When
  the rasterizer returns, every pixel of its mask is 0 or 1 and is 1 exactly where the
  raster of at least one polygon is set; so if the primitive sets the pixels that lie
  strictly inside a polygon, every pixel strictly inside at least one polygon is 1; and the
  centroid list has one pair of integers per polygon, in the order of the polygons, the
  truncated centroid of each polygon's raster.
\<close>

theorem rasterizer_returns_binary_union_iff_centroids_finite:
  assumes "\<forall>cell \<in> set cells.
             has_shape (polygon2mask (shape0 img, shape1 img) cell) (nat (shape0 img)) (nat (shape1 img))"
  shows "((\<exists>label centroids. annotation_to_label polygon2mask centroid cells img = Inr (label, centroids))
            \<longleftrightarrow> (\<forall>cell \<in> set cells. \<exists>x y.
                   centroid (polygon2mask (shape0 img, shape1 img) cell) = (Finite x, Finite y)))
     \<and> (\<forall>label centroids.
          annotation_to_label polygon2mask centroid cells img = Inr (label, centroids) \<longrightarrow>
            has_shape label (nat (shape0 img)) (nat (shape1 img))
            \<and> (\<forall>r < nat (shape0 img). \<forall>c < nat (shape1 img).
                  (label ! r ! c = 0 \<or> label ! r ! c = 1)
                \<and> (label ! r ! c = 1 \<longleftrightarrow>
                     (\<exists>cell \<in> set cells. polygon2mask (shape0 img, shape1 img) cell ! r ! c)))
            \<and> ((\<forall>cell \<in> set cells. \<forall>r < nat (shape0 img). \<forall>c < nat (shape1 img).
                   strictly_inside cell (real r, real c)
                   \<longrightarrow> polygon2mask (shape0 img, shape1 img) cell ! r ! c)
                \<longrightarrow> (\<forall>r < nat (shape0 img). \<forall>c < nat (shape1 img).
                       (\<exists>cell \<in> set cells. strictly_inside cell (real r, real c)) \<longrightarrow> label ! r ! c = 1))
            \<and> length centroids = length cells
            \<and> (\<forall>k < length cells. \<forall>x y.
                  centroid (polygon2mask (shape0 img, shape1 img) (cells ! k)) = (Finite x, Finite y)
                  \<longrightarrow> centroids ! k = (py_int x, py_int y)))"
proof -
  let ?H = "nat (shape0 img)" and ?W = "nat (shape1 img)"
  let ?p2m = "polygon2mask (shape0 img, shape1 img)"
  let ?label = "replicate ?H (replicate ?W (0::8 word))"
  have run_def: "annotation_to_label polygon2mask centroid cells img = label_loop ?p2m centroid cells ?label []"
    by (simp add: annotation_to_label_def Let_def)
  have iff: "(\<exists>label centroids. annotation_to_label polygon2mask centroid cells img = Inr (label, centroids))
            \<longleftrightarrow> (\<forall>cell \<in> set cells. \<exists>x y. centroid (?p2m cell) = (Finite x, Finite y))"
    unfolding run_def using label_loop_returns_iff [of ?p2m centroid cells ?label "[]"] by simp
  have rest: "has_shape label ?H ?W
            \<and> (\<forall>r < ?H. \<forall>c < ?W.
                  (label ! r ! c = 0 \<or> label ! r ! c = 1)
                \<and> (label ! r ! c = 1 \<longleftrightarrow> (\<exists>cell \<in> set cells. ?p2m cell ! r ! c)))
            \<and> ((\<forall>cell \<in> set cells. \<forall>r < ?H. \<forall>c < ?W.
                   strictly_inside cell (real r, real c) \<longrightarrow> ?p2m cell ! r ! c)
                \<longrightarrow> (\<forall>r < ?H. \<forall>c < ?W.
                       (\<exists>cell \<in> set cells. strictly_inside cell (real r, real c)) \<longrightarrow> label ! r ! c = 1))
            \<and> length centroids = length cells
            \<and> (\<forall>k < length cells. \<forall>x y. centroid (?p2m (cells ! k)) = (Finite x, Finite y)
                  \<longrightarrow> centroids ! k = (py_int x, py_int y))"
    if ret: "annotation_to_label polygon2mask centroid cells img = Inr (label, centroids)"
    for label centroids
  proof -
    have fin: "\<forall>cell \<in> set cells. \<exists>x y. centroid (?p2m cell) = (Finite x, Finite y)"
      using iff ret by blast
    have sh: "has_shape ?label ?H ?W"
      by (simp add: has_shape_def)
    from label_loop_spec [OF sh assms fin, of "[]"] ret [unfolded run_def]
    have sh': "has_shape label ?H ?W"
      and pix: "\<forall>r < ?H. \<forall>c < ?W. label ! r ! c =
             (if \<exists>cell \<in> set cells. ?p2m cell ! r ! c then max (?label ! r ! c) 1 else ?label ! r ! c)"
      and len: "length centroids = length cells"
      and cs: "\<forall>k < length cells. \<forall>x y. centroid (?p2m (cells ! k)) = (Finite x, Finite y)
             \<longrightarrow> centroids ! k = (py_int x, py_int y)"
      by auto
    have pix': "label ! r ! c = (if \<exists>cell \<in> set cells. ?p2m cell ! r ! c then 1 else 0)"
      if "r < ?H" "c < ?W" for r c
    proof -
      have "label ! r ! c =
             (if \<exists>cell \<in> set cells. ?p2m cell ! r ! c then max (?label ! r ! c) 1 else ?label ! r ! c)"
        using pix that by blast
      moreover have "?label ! r ! c = 0"
        using that by simp
      ultimately show ?thesis
        by (simp add: max_def)
    qed
    have binary: "\<forall>r < ?H. \<forall>c < ?W.
            (label ! r ! c = 0 \<or> label ! r ! c = 1)
          \<and> (label ! r ! c = 1 \<longleftrightarrow> (\<exists>cell \<in> set cells. ?p2m cell ! r ! c))"
      using pix' by auto
    have inside: "\<forall>r < ?H. \<forall>c < ?W.
            (\<exists>cell \<in> set cells. strictly_inside cell (real r, real c)) \<longrightarrow> label ! r ! c = 1"
      if "\<forall>cell \<in> set cells. \<forall>r < ?H. \<forall>c < ?W. strictly_inside cell (real r, real c) \<longrightarrow> ?p2m cell ! r ! c"
      using that pix' by auto
    show ?thesis
      using sh' binary inside len cs by (intro conjI impI)
  qed
  show ?thesis
  proof (intro conjI allI)
    show "(\<exists>label centroids. annotation_to_label polygon2mask centroid cells img = Inr (label, centroids))
            \<longleftrightarrow> (\<forall>cell \<in> set cells. \<exists>x y. centroid (?p2m cell) = (Finite x, Finite y))"
      by (rule iff)
  next
    fix label centroids
    show "annotation_to_label polygon2mask centroid cells img = Inr (label, centroids) \<longrightarrow>
            has_shape label ?H ?W
            \<and> (\<forall>r < ?H. \<forall>c < ?W.
                  (label ! r ! c = 0 \<or> label ! r ! c = 1)
                \<and> (label ! r ! c = 1 \<longleftrightarrow> (\<exists>cell \<in> set cells. ?p2m cell ! r ! c)))
            \<and> ((\<forall>cell \<in> set cells. \<forall>r < ?H. \<forall>c < ?W.
                   strictly_inside cell (real r, real c) \<longrightarrow> ?p2m cell ! r ! c)
                \<longrightarrow> (\<forall>r < ?H. \<forall>c < ?W.
                       (\<exists>cell \<in> set cells. strictly_inside cell (real r, real c)) \<longrightarrow> label ! r ! c = 1))
            \<and> length centroids = length cells
            \<and> (\<forall>k < length cells. \<forall>x y. centroid (?p2m (cells ! k)) = (Finite x, Finite y)
                  \<longrightarrow> centroids ! k = (py_int x, py_int y))"
      using rest by (intro impI)
  qed
qed

theorem rasterizer_returns_binary_union_iff_centroids_finite_witness:
  "list_all (\<lambda>cell.
      has_shape (box_polygon2mask (shape0 example_image, shape1 example_image) cell)
        (nat (shape0 example_image)) (nat (shape1 example_image))) example_polygons
   \<and> list_all (\<lambda>cell.
        \<exists>x y. mean_centroid (box_polygon2mask (shape0 example_image, shape1 example_image) cell)
                = (Finite x, Finite y)) example_polygons
   \<and> list_all (\<lambda>cell. list_all (\<lambda>r. list_all (\<lambda>c.
        \<not> strictly_inside cell (real r, real c)
        \<or> box_polygon2mask (shape0 example_image, shape1 example_image) cell ! r ! c)
          [0..<nat (shape1 example_image)]) [0..<nat (shape0 example_image)]) example_polygons
   \<and> strictly_inside (example_polygons ! 0) (real 1, real 1)
   \<and> \<not> strictly_inside (example_polygons ! 0) (real 0, real 1)
   \<and> \<not> strictly_inside (example_polygons ! 0) (real 2, real 1)
   \<and> (\<exists>label centroids.
        annotation_to_label box_polygon2mask mean_centroid example_polygons example_image
          = Inr (label, centroids)
        \<and> label ! 1 ! 1 = 1
        \<and> length centroids = length example_polygons)
   \<and> annotation_to_label box_polygon2mask mean_centroid example_polygons example_image
       = Inr ([[1, 1, 0, 0, 0], [1, 1, 0, 1, 1], [0, 0, 0, 1, 1]], [(0, 0), (1, 3)])"
proof -
  have H: "nat (shape0 example_image) = 3" and W: "nat (shape1 example_image) = 5"
    by (simp_all add: shape0_def shape1_def example_image_def)
  have sh: "\<forall>cell \<in> set example_polygons.
      has_shape (box_polygon2mask (shape0 example_image, shape1 example_image) cell)
        (nat (shape0 example_image)) (nat (shape1 example_image))"
    by (simp add: has_shape_def box_polygon2mask_def)
  have c1: "mean_centroid (box_polygon2mask (shape0 example_image, shape1 example_image)
              [(0, 0), (0, 1.5), (1.5, 1.5), (1.5, 0)]) = (Finite (1 / 2), Finite (1 / 2))"
    by code_simp
  have c2: "mean_centroid (box_polygon2mask (shape0 example_image, shape1 example_image)
              [(1, 3), (2, 4), (2, 3)]) = (Finite (3 / 2), Finite (7 / 2))"
    by code_simp
  have fin: "\<forall>cell \<in> set example_polygons.
        \<exists>x y. mean_centroid (box_polygon2mask (shape0 example_image, shape1 example_image) cell)
                = (Finite x, Finite y)"
    unfolding example_polygons_def by (simp only: list.set ball_simps c1 c2) blast
  have sound_list: "list_all (\<lambda>cell. list_all (\<lambda>r. list_all (\<lambda>c.
        \<not> strictly_inside cell (real r, real c)
        \<or> box_polygon2mask (shape0 example_image, shape1 example_image) cell ! r ! c)
          [0..<nat (shape1 example_image)]) [0..<nat (shape0 example_image)]) example_polygons"
    by code_simp
  then have sound: "\<forall>cell \<in> set example_polygons.
        \<forall>r < nat (shape0 example_image). \<forall>c < nat (shape1 example_image).
          strictly_inside cell (real r, real c)
          \<longrightarrow> box_polygon2mask (shape0 example_image, shape1 example_image) cell ! r ! c"
    unfolding list_all_iff by auto
  have in1: "strictly_inside (example_polygons ! 0) (real 1, real 1)"
    by code_simp
  have out0: "\<not> strictly_inside (example_polygons ! 0) (real 0, real 1)"
    by code_simp
  have out2: "\<not> strictly_inside (example_polygons ! 0) (real 2, real 1)"
    by code_simp
  have first: "example_polygons ! 0 \<in> set example_polygons"
    by (simp add: example_polygons_def)
  note inst = rasterizer_returns_binary_union_iff_centroids_finite
            [where cells = example_polygons and polygon2mask = box_polygon2mask
               and img = example_image and centroid = mean_centroid, OF sh]
  from inst fin obtain label centroids where
    ret: "annotation_to_label box_polygon2mask mean_centroid example_polygons example_image
            = Inr (label, centroids)"
    by blast
  have len: "length centroids = length example_polygons"
    using inst ret by blast
  have "\<forall>r < nat (shape0 example_image). \<forall>c < nat (shape1 example_image).
          (\<exists>cell \<in> set example_polygons. strictly_inside cell (real r, real c)) \<longrightarrow> label ! r ! c = 1"
    using inst ret sound by blast
  then have ones: "label ! r ! c = 1"
    if "r < 3" "c < 5" "\<exists>cell \<in> set example_polygons. strictly_inside cell (real r, real c)" for r c
    using that unfolding H W by blast
  have one: "label ! 1 ! 1 = 1"
  proof (rule ones)
    show "(1::nat) < 3" "(1::nat) < 5"
      by simp_all
    show "\<exists>cell \<in> set example_polygons. strictly_inside cell (real 1, real 1)"
      using in1 first by blast
  qed
  have ex: "\<exists>label centroids.
        annotation_to_label box_polygon2mask mean_centroid example_polygons example_image
          = Inr (label, centroids)
        \<and> label ! 1 ! 1 = 1
        \<and> length centroids = length example_polygons"
    using ret one len by blast
  have ev: "annotation_to_label box_polygon2mask mean_centroid example_polygons example_image
       = Inr ([[1, 1, 0, 0, 0], [1, 1, 0, 1, 1], [0, 0, 0, 1, 1]], [(0, 0), (1, 3)])"
    by code_simp
  show ?thesis
    unfolding list_all_iff
    by (intro conjI) (rule sh fin sound_list [unfolded list_all_iff] in1 out0 out2 ex ev)+
qed

subsection \<open>The dataset adapter and the name of the dataset\<close>

text \<open>
  Claim C10 says that with the dataset name \<^verbatim>\<open>synthetic\<close> the function returns three loaders
  and the channel count. The steps after the construction of the dataset can raise: a
  configuration with that name whose ratios are \<^verbatim>\<open>0:0:0\<close> makes the normalisation of the
  ratios divide by zero, after the dataset was constructed and before any loader is.
\<close>

theorem synthetic_config_with_zero_ratios_raises:
  "dataset_name zero_ratio_config = ''synthetic''
   \<and> prepare_dataset example_collaborators zero_ratio_config
       = ([Construct_SyntheticDataset], Inl ZeroDivisionError)"
  by code_simp

text \<open>
  Claim C10 as amended. For every configuration whose dataset name is not \<^verbatim>\<open>synthetic\<close>,
  \<^verbatim>\<open>prepare_dataset\<close> raises the \<^verbatim>\<open>ValueError\<close> before it starts any construction. When the
  name is \<^verbatim>\<open>synthetic\<close> that branch is not taken: the run starts with the construction of
  the dataset, and it returns, namely the three loaders and the channel count of the
  dataset, exactly when none of the later steps raises (the construction of the dataset,
  its channel count, the parsing and normalisation of the ratios, the split, the
  extension of the training set and the three loaders).
\<close>

theorem prepare_dataset_rejects_other_dataset_names:
  "(dataset_name config \<noteq> ''synthetic'' \<longrightarrow>
      prepare_dataset env config
        = ([], Inl (ValueError ''Dataset not found. Check `dataset_name` in config yaml file.'')))
   \<and> (dataset_name config = ''synthetic'' \<longrightarrow>
        (\<exists>rest. fst (prepare_dataset env config) = Construct_SyntheticDataset # rest)
      \<and> (\<forall>dataset n ratios train_set val_set test_set train_set' l1 l2 l3.
            SyntheticDataset env (dataset_path config) (target_dim config) = Inr dataset
          \<and> num_image_channel env dataset = Inr n
          \<and> normalised_ratios (py_float env) (train_val_test_ratio config) = Inr ratios
          \<and> split_dataset env dataset ratios (random_seed config) = Inr (train_set, val_set, test_set)
          \<and> ExtendedDataset env train_set (max (py_len env train_set) (batch_size config * 5)) = Inr train_set'
          \<and> DataLoader env train_set' (batch_size config) True (num_workers config) = Inr l1
          \<and> DataLoader env val_set (py_len env val_set) False (num_workers config) = Inr l2
          \<and> DataLoader env test_set (py_len env test_set) False (num_workers config) = Inr l3
          \<longrightarrow> snd (prepare_dataset env config) = Inr (l1, l2, l3, n))
      \<and> (\<forall>result. snd (prepare_dataset env config) = Inr result \<longrightarrow>
            (\<exists>dataset n ratios train_set val_set test_set train_set' l1 l2 l3.
               SyntheticDataset env (dataset_path config) (target_dim config) = Inr dataset
             \<and> num_image_channel env dataset = Inr n
             \<and> normalised_ratios (py_float env) (train_val_test_ratio config) = Inr ratios
             \<and> split_dataset env dataset ratios (random_seed config) = Inr (train_set, val_set, test_set)
             \<and> ExtendedDataset env train_set (max (py_len env train_set) (batch_size config * 5)) = Inr train_set'
             \<and> DataLoader env train_set' (batch_size config) True (num_workers config) = Inr l1
             \<and> DataLoader env val_set (py_len env val_set) False (num_workers config) = Inr l2
             \<and> DataLoader env test_set (py_len env test_set) False (num_workers config) = Inr l3
             \<and> result = (l1, l2, l3, n))))"
proof (intro conjI impI)
  assume "dataset_name config \<noteq> ''synthetic''"
  then show "prepare_dataset env config
        = ([], Inl (ValueError ''Dataset not found. Check `dataset_name` in config yaml file.''))"
    by (simp add: prepare_dataset_def plain_def)
next
  assume "dataset_name config = ''synthetic''"
  then show "\<exists>rest. fst (prepare_dataset env config) = Construct_SyntheticDataset # rest"
    by (simp add: prepare_dataset_def and_then_def construct_def split: sum.splits)
next
  assume syn: "dataset_name config = ''synthetic''"
  show "\<forall>dataset n ratios train_set val_set test_set train_set' l1 l2 l3.
            SyntheticDataset env (dataset_path config) (target_dim config) = Inr dataset
          \<and> num_image_channel env dataset = Inr n
          \<and> normalised_ratios (py_float env) (train_val_test_ratio config) = Inr ratios
          \<and> split_dataset env dataset ratios (random_seed config) = Inr (train_set, val_set, test_set)
          \<and> ExtendedDataset env train_set (max (py_len env train_set) (batch_size config * 5)) = Inr train_set'
          \<and> DataLoader env train_set' (batch_size config) True (num_workers config) = Inr l1
          \<and> DataLoader env val_set (py_len env val_set) False (num_workers config) = Inr l2
          \<and> DataLoader env test_set (py_len env test_set) False (num_workers config) = Inr l3
          \<longrightarrow> snd (prepare_dataset env config) = Inr (l1, l2, l3, n)"
    using syn by (simp add: prepare_dataset_def and_then_def construct_def plain_def Let_def)
next
  assume syn: "dataset_name config = ''synthetic''"
  show "\<forall>result. snd (prepare_dataset env config) = Inr result \<longrightarrow>
            (\<exists>dataset n ratios train_set val_set test_set train_set' l1 l2 l3.
               SyntheticDataset env (dataset_path config) (target_dim config) = Inr dataset
             \<and> num_image_channel env dataset = Inr n
             \<and> normalised_ratios (py_float env) (train_val_test_ratio config) = Inr ratios
             \<and> split_dataset env dataset ratios (random_seed config) = Inr (train_set, val_set, test_set)
             \<and> ExtendedDataset env train_set (max (py_len env train_set) (batch_size config * 5)) = Inr train_set'
             \<and> DataLoader env train_set' (batch_size config) True (num_workers config) = Inr l1
             \<and> DataLoader env val_set (py_len env val_set) False (num_workers config) = Inr l2
             \<and> DataLoader env test_set (py_len env test_set) False (num_workers config) = Inr l3
             \<and> result = (l1, l2, l3, n))"
    using syn
    by (simp add: prepare_dataset_def and_then_def construct_def plain_def Let_def
          split: sum.splits prod.splits)
qed

theorem prepare_dataset_rejects_other_dataset_names_witness:
  "dataset_name (example_config\<lparr>dataset_name := ''MoNuSeg''\<rparr>) \<noteq> ''synthetic''
   \<and> prepare_dataset example_collaborators (example_config\<lparr>dataset_name := ''MoNuSeg''\<rparr>)
       = ([], Inl (ValueError ''Dataset not found. Check `dataset_name` in config yaml file.''))
   \<and> dataset_name example_config = ''synthetic''
   \<and> normalised_ratios (py_float example_collaborators) (train_val_test_ratio example_config)
       = Inr [8 / 10, 1 / 10, 1 / 10]
   \<and> snd (prepare_dataset example_collaborators example_config)
       = Inr (''shuffled loader'', ''loader'', ''loader'', 3)"
proof -
  have other: "dataset_name (example_config\<lparr>dataset_name := ''MoNuSeg''\<rparr>) \<noteq> ''synthetic''"
    by simp
  have syn: "dataset_name example_config = ''synthetic''"
    by (simp add: example_config_def)
  have ratios: "normalised_ratios (py_float example_collaborators) (train_val_test_ratio example_config)
       = Inr [8 / 10, 1 / 10, 1 / 10]"
    by code_simp
  have steps:
    "SyntheticDataset example_collaborators (dataset_path example_config) (target_dim example_config) = Inr ()"
    "num_image_channel example_collaborators () = Inr 3"
    "split_dataset example_collaborators () [8 / 10, 1 / 10, 1 / 10] (random_seed example_config) = Inr ((), (), ())"
    "ExtendedDataset example_collaborators ()
       (max (py_len example_collaborators ()) (batch_size example_config * 5)) = Inr ()"
    "DataLoader example_collaborators () (batch_size example_config) True (num_workers example_config)
       = Inr ''shuffled loader''"
    "DataLoader example_collaborators () (py_len example_collaborators ()) False (num_workers example_config)
       = Inr ''loader''"
    by (simp_all add: example_collaborators_def)
  have rejected: "prepare_dataset example_collaborators (example_config\<lparr>dataset_name := ''MoNuSeg''\<rparr>)
       = ([], Inl (ValueError ''Dataset not found. Check `dataset_name` in config yaml file.''))"
    using prepare_dataset_rejects_other_dataset_names
            [of "example_config\<lparr>dataset_name := ''MoNuSeg''\<rparr>" example_collaborators] other
    by (simp only: simp_thms)
  have returned: "snd (prepare_dataset example_collaborators example_config)
       = Inr (''shuffled loader'', ''loader'', ''loader'', 3)"
    using prepare_dataset_rejects_other_dataset_names [of example_config example_collaborators]
      syn ratios steps
    by blast
  show ?thesis
    by (intro conjI) (rule other rejected syn ratios returned)+
qed

subsection \<open>Runs are reproducible\<close>



end
